theory Spec2Isabelle
  imports Complex_Main "HOL-Library.Word" "HOL-Library.Sublist"
begin

section \<open>JavaScript strings\<close>

text \<open>
  A JavaScript string is a sequence of UTF-16 code units. The regular expressions of
  \<^verbatim>\<open>geminiService.ts\<close> carry no \<^verbatim>\<open>u\<close> flag, so they work on code units too.
  ASCII literals are written \<open>js ''...''\<close>.
\<close>

type_synonym jschar = "16 word"
type_synonym jsstring = "jschar list"

definition js :: "string \<Rightarrow> jsstring" where
  "js s = map of_char s"

text \<open>LineTerminator of ECMAScript: LF, CR, LS, PS. The regex atom \<^verbatim>\<open>.\<close> excludes them.\<close>

definition is_line_terminator :: "jschar \<Rightarrow> bool" where
  "is_line_terminator c = (c \<in> set [0xA, 0xD, 0x2028, 0x2029])"

text \<open>
  WhiteSpace and LineTerminator of ECMAScript: what the regex class \<^verbatim>\<open>\s\<close> matches and
  what \<^verbatim>\<open>String.prototype.trim\<close> strips.
\<close>

definition is_ws :: "jschar \<Rightarrow> bool" where
  "is_ws c = (c \<in> set [0x9, 0xA, 0xB, 0xC, 0xD, 0x20, 0xA0, 0x1680,
     0x2000, 0x2001, 0x2002, 0x2003, 0x2004, 0x2005, 0x2006, 0x2007, 0x2008, 0x2009, 0x200A,
     0x2028, 0x2029, 0x202F, 0x205F, 0x3000, 0xFEFF])"

definition trim :: "jsstring \<Rightarrow> jsstring" where
  "trim s = rev (dropWhile is_ws (rev (dropWhile is_ws s)))"

text \<open>\<^verbatim>\<open>xs.join(sep)\<close>\<close>

fun join :: "jsstring \<Rightarrow> jsstring list \<Rightarrow> jsstring" where
  "join sep [] = []"
| "join sep [x] = x"
| "join sep (x # y # ys) = x @ sep @ join sep (y # ys)"

text \<open>
  \<^verbatim>\<open>s.split(",")\<close> with a one-character separator, here any character satisfying \<open>p\<close>:
  the empty string splits into one empty piece.
\<close>

fun split_on :: "(jschar \<Rightarrow> bool) \<Rightarrow> jsstring \<Rightarrow> jsstring list" where
  "split_on p [] = [[]]"
| "split_on p (c # cs) =
     (if p c then [] # split_on p cs
      else (case split_on p cs of [] \<Rightarrow> [[c]] | x # xs \<Rightarrow> (c # x) # xs))"

section \<open>The regular expressions of the parser\<close>

text \<open>
  \<^verbatim>\<open>text.match(re)\<close> without the \<^verbatim>\<open>g\<close> flag tries the pattern at index 0, 1, ... up to the
  length of the text and returns the first success; \<open>m\<close> is the pattern anchored at the
  start of its argument and returns capture group 1.
\<close>

fun first_match :: "(jsstring \<Rightarrow> 'a option) \<Rightarrow> jsstring \<Rightarrow> 'a option" where
  "first_match m [] = m []"
| "first_match m (c # cs) =
     (case m (c # cs) of Some r \<Rightarrow> Some r | None \<Rightarrow> first_match m cs)"

text \<open>A literal, followed by the rest \<open>k\<close> of the pattern.\<close>

definition lit :: "jsstring \<Rightarrow> (jsstring \<Rightarrow> 'a option) \<Rightarrow> jsstring \<Rightarrow> 'a option" where
  "lit h k s = (if prefix h s then k (drop (length h) s) else None)"

text \<open>
  \<^verbatim>\<open>\s*\<close> followed by the rest \<open>k\<close> of the pattern: greedy, so the longer run of white
  space is tried first, and the matcher backtracks to a shorter run when \<open>k\<close> fails.
\<close>

fun ws_star :: "(jsstring \<Rightarrow> 'a option) \<Rightarrow> jsstring \<Rightarrow> 'a option" where
  "ws_star k [] = k []"
| "ws_star k (c # cs) =
     (if is_ws c
      then (case ws_star k cs of Some r \<Rightarrow> Some r | None \<Rightarrow> k (c # cs))
      else k (c # cs))"

text \<open>\<^verbatim>\<open>(.+)\<close> at the end of a pattern: the longest run without a line terminator, not empty.\<close>

definition dot_plus :: "jsstring \<Rightarrow> jsstring option" where
  "dot_plus s =
     (let m = takeWhile (\<lambda>c. \<not> is_line_terminator c) s in if m = [] then None else Some m)"

text \<open>
  \<^verbatim>\<open>([\s\S]*?)(?=h)\<close> at the end of a pattern: lazy, so the shortest run of any characters
  after which the literal \<open>h\<close> follows.
\<close>

fun lazy_until :: "jsstring \<Rightarrow> jsstring \<Rightarrow> jsstring option" where
  "lazy_until h [] = (if prefix h [] then Some [] else None)"
| "lazy_until h (c # cs) =
     (if prefix h (c # cs) then Some [] else map_option (Cons c) (lazy_until h cs))"

text \<open>\<^verbatim>\<open>([\s\S]*)\<close> at the end of a pattern: everything up to the end of the text.\<close>

definition any_star :: "jsstring \<Rightarrow> jsstring option" where
  "any_star s = Some s"

text \<open>\<^verbatim>\<open>/## Title:\s*(.+)/\<close>\<close>

definition re_title :: "jsstring \<Rightarrow> jsstring option" where
  "re_title = first_match (lit (js ''## Title:'') (ws_star dot_plus))"

text \<open>\<^verbatim>\<open>/## Voice:\s*([\s\S]*?)(?=## Tags:)/\<close>\<close>

definition re_voice :: "jsstring \<Rightarrow> jsstring option" where
  "re_voice = first_match (lit (js ''## Voice:'') (ws_star (lazy_until (js ''## Tags:''))))"

text \<open>\<^verbatim>\<open>/## Tags:\s*([\s\S]*?)(?=## Style:)/\<close>\<close>

definition re_tags :: "jsstring \<Rightarrow> jsstring option" where
  "re_tags = first_match (lit (js ''## Tags:'') (ws_star (lazy_until (js ''## Style:''))))"

text \<open>\<^verbatim>\<open>/## Style:\s*([\s\S]*?)(?=## Lyrics:)/\<close>\<close>

definition re_style :: "jsstring \<Rightarrow> jsstring option" where
  "re_style = first_match (lit (js ''## Style:'') (ws_star (lazy_until (js ''## Lyrics:''))))"

text \<open>\<^verbatim>\<open>/## Lyrics:\s*([\s\S]*)/\<close>\<close>

definition re_lyrics :: "jsstring \<Rightarrow> jsstring option" where
  "re_lyrics = first_match (lit (js ''## Lyrics:'') (ws_star any_star))"

section \<open>The parser\<close>

record ParsedSong =
  title :: jsstring
  voice :: jsstring
  style :: jsstring
  tags :: "jsstring list"
  lyrics :: jsstring

text \<open>
  The five local constants of \<^verbatim>\<open>parseSongFromText\<close>. \<^verbatim>\<open>text.match(re)?.[1]?.trim()\<close> is
  \<^verbatim>\<open>undefined\<close> (here \<open>None\<close>) when the pattern does not match; \<^verbatim>\<open>??\<close> replaces
  \<^verbatim>\<open>undefined\<close> only, not the empty string.
\<close>

definition title_of :: "jsstring \<Rightarrow> jsstring option" where
  "title_of text = map_option trim (re_title text)"

definition voice_of :: "jsstring \<Rightarrow> jsstring" where
  "voice_of text =
     (case map_option trim (re_voice text) of Some v \<Rightarrow> v | None \<Rightarrow> js ''Not specified'')"

definition rawTags_of :: "jsstring \<Rightarrow> jsstring option" where
  "rawTags_of text = map_option trim (re_tags text)"

definition style_of :: "jsstring \<Rightarrow> jsstring option" where
  "style_of text = map_option trim (re_style text)"

definition lyrics_of :: "jsstring \<Rightarrow> jsstring option" where
  "lyrics_of text = map_option trim (re_lyrics text)"

text \<open>\<^verbatim>\<open>!x\<close> for a value that is a string or \<^verbatim>\<open>undefined\<close>.\<close>

definition falsy :: "jsstring option \<Rightarrow> bool" where
  "falsy x = (case x of None \<Rightarrow> True | Some s \<Rightarrow> s = [])"

text \<open>\<^verbatim>\<open>rawTags.replace(/\n/g, ",")\<close>\<close>

definition replace_newlines :: "jsstring \<Rightarrow> jsstring" where
  "replace_newlines s = map (\<lambda>c. if c = 0xA then 0x2C else c) s"

text \<open>
  \<^verbatim>\<open>rawTags?.replace(/\n/g, ",").split(",").map(t => t.trim()).filter(Boolean) ?? []\<close>
\<close>

definition tags_of :: "jsstring option \<Rightarrow> jsstring list" where
  "tags_of rawTags =
     (case rawTags of
        None \<Rightarrow> []
      | Some r \<Rightarrow>
          filter (\<lambda>t. t \<noteq> []) (map trim (split_on (\<lambda>c. c = 0x2C) (replace_newlines r))))"

definition parseSongFromText :: "jsstring \<Rightarrow> ParsedSong option" where
  "parseSongFromText text =
     (let title = title_of text;
          voice = voice_of text;
          rawTags = rawTags_of text;
          style = style_of text;
          lyrics = lyrics_of text
      in if falsy title \<or> falsy style \<or> falsy lyrics then None
         else Some \<lparr>title = the title, voice = voice, style = the style,
                    tags = tags_of rawTags, lyrics = the lyrics\<rparr>)"

section \<open>The request assembler\<close>

text \<open>
  Modelled from the spec: the enumerations \<^verbatim>\<open>GeneratorMode\<close> and \<^verbatim>\<open>LyricsLanguage\<close> of
  \<^verbatim>\<open>types.ts\<close>, which is not among the sources. The members are the ones the sources name
  and section 3 of the specification lists; the model takes them as distinct.
\<close>

datatype GeneratorMode =
  NORMAL | RANDOM | CRAZY | TRENDING | KPOP_RANDOM | KPOP_3_VOICES | THINKING

datatype LyricsLanguage = ENGLISH | ARABIC | MIXED

text \<open>
  \<^verbatim>\<open>StudioSettings\<close> and \<^verbatim>\<open>AppSettings\<close> as \<^verbatim>\<open>App.tsx\<close> builds and the generator reads them. The
  vocal fields and the structure are string unions whose default members are \<^verbatim>\<open>'Any'\<close> and
  \<^verbatim>\<open>'Auto'\<close>; the mood sliders hold integers.
\<close>

record Mood =
  darkBright :: int
  cleanGritty :: int
  energy :: int

record Vocal =
  gender :: jsstring
  texture :: jsstring

record StudioSettings =
  mood :: Mood
  vocal :: Vocal
  "structure" :: jsstring

record Generation =
  modelPreference :: jsstring
  temperature :: real

record AppSettings =
  generation :: Generation

subsection \<open>Mode logic\<close>

text \<open>
  The TRENDING entry of the object literal \<^verbatim>\<open>modePrompts\<close> is an arrow function that is
  called on the spot, \<^verbatim>\<open>(() => { useSearch = true; return "..."; })()\<close>: it runs while the
  literal is built, assigns \<^verbatim>\<open>useSearch\<close> and yields the directive. The en dash of the
  directive is the code unit U+2013.
\<close>

definition trending_entry :: "bool \<Rightarrow> jsstring \<times> bool" where
  "trending_entry useSearch =
     (js ''Search current 2024'' @ [0x2013] @ js ''2025 viral music trends and write a hit.'',
      True)"

text \<open>Building \<^verbatim>\<open>modePrompts\<close>: the table, and \<^verbatim>\<open>useSearch\<close> as the literal leaves it.\<close>

definition modePrompts :: "bool \<Rightarrow> (GeneratorMode \<rightharpoonup> jsstring) \<times> bool" where
  "modePrompts useSearch =
     (let (trending, useSearch') = trending_entry useSearch
      in ([RANDOM \<mapsto> js ''Create a commercially strong hit with an unforgettable hook.'',
           CRAZY \<mapsto> js ''Fuse incompatible genres into an experimental but coherent track.'',
           KPOP_RANDOM \<mapsto> js ''Create a top-tier K-Pop song with strong English hooks.'',
           KPOP_3_VOICES \<mapsto> js ''Create a K-Pop trio. Use strict bracketed singer tags.'',
           TRENDING \<mapsto> trending,
           THINKING \<mapsto> js ''Compose a complex, layered musical masterpiece.''],
          useSearch'))"

text \<open>
  \<^verbatim>\<open>let finalPrompt = prompt; let useSearch = false;\<close>, the literal, and
  \<^verbatim>\<open>if (modePrompts[mode]) finalPrompt = mode === THINKING && prompt.trim() ? prompt : modePrompts[mode]\<close>.
  The result is \<^verbatim>\<open>finalPrompt\<close> and \<^verbatim>\<open>useSearch\<close> after the mode logic.
\<close>

definition mode_logic :: "jsstring \<Rightarrow> GeneratorMode \<Rightarrow> jsstring \<times> bool" where
  "mode_logic prompt mode =
     (let finalPrompt = prompt;
          useSearch = False;
          (table, useSearch) = modePrompts useSearch;
          finalPrompt =
            (if \<not> falsy (table mode)
             then (if mode = THINKING \<and> trim prompt \<noteq> [] then prompt else the (table mode))
             else finalPrompt)
      in (finalPrompt, useSearch))"

subsection \<open>Mood translation and constraints\<close>

definition moodDesc :: "StudioSettings \<Rightarrow> jsstring list" where
  "moodDesc settings =
     (if darkBright (mood settings) < 30 then [js ''Dark, Minor Key'']
      else if darkBright (mood settings) > 70 then [js ''Bright, Major Key''] else []) @
     (if cleanGritty (mood settings) > 70 then [js ''Gritty, Saturated, Lo-fi'']
      else if cleanGritty (mood settings) < 30 then [js ''Clean, Polished''] else []) @
     (if energy (mood settings) > 70
      then [if sublist (js ''EDM'') (structure settings)
            then js ''Festival Energy, Big Drops''
            else js ''High Energy, Aggressive Groove'']
      else if energy (mood settings) < 30 then [js ''Chill, Ambient, Low Energy''] else [])"

definition vocalConstraint :: "Vocal \<Rightarrow> jsstring" where
  "vocalConstraint v =
     (if gender v \<noteq> js ''Any'' \<or> texture v \<noteq> js ''Any''
      then js ''[CONSTRAINT: Voice must be '' @ texture v @ js '' '' @ gender v @ js '']''
      else [])"

definition structureConstraint :: "jsstring \<Rightarrow> jsstring" where
  "structureConstraint s =
     (if s \<noteq> js ''Auto''
      then js ''[CONSTRAINT: Use strict '' @ s @ js '' structure]''
      else [])"

definition langConstraint :: "LyricsLanguage \<Rightarrow> jsstring" where
  "langConstraint lyricsLanguage =
     (if lyricsLanguage = ARABIC
      then js ''Lyrics strictly in ARABIC (Egyptian/Gulf). Style & Tags in ENGLISH.''
      else if lyricsLanguage = MIXED
      then js ''Lyrics in Arabic + English mix. Style & Tags in ENGLISH.''
      else js ''Lyrics in ENGLISH only.'')"

text \<open>
  The earlier copy of the generator in the same source file builds the vocal clause from
  the fields that are set:
  \<^verbatim>\<open>`[CONSTRAINT: Voice must be ${vocal.texture !== 'Any' ? vocal.texture : ''} ${vocal.gender !== 'Any' ? vocal.gender : ''}]`\<close>
\<close>

definition vocalInstruction :: "Vocal \<Rightarrow> jsstring" where
  "vocalInstruction v =
     (if gender v \<noteq> js ''Any'' \<or> texture v \<noteq> js ''Any''
      then js ''[CONSTRAINT: Voice must be '' @
           (if texture v \<noteq> js ''Any'' then texture v else []) @ js '' '' @
           (if gender v \<noteq> js ''Any'' then gender v else []) @ js '']''
      else [])"

subsection \<open>The final prompt\<close>

text \<open>The template literal appended to \<^verbatim>\<open>finalPrompt\<close>; \<^verbatim>\<open>x || "Balanced"\<close> replaces the empty string.\<close>

definition studio_settings ::
  "StudioSettings \<Rightarrow> bool \<Rightarrow> bool \<Rightarrow> LyricsLanguage \<Rightarrow> jsstring" where
  "studio_settings settings isRadioEdit hasIntro lyricsLanguage =
     js ''\<newline>=== STUDIO SETTINGS ===\<newline>Tone: '' @
     (let tone = join (js '', '') (moodDesc settings) in if tone = [] then js ''Balanced'' else tone) @
     js ''\<newline>'' @ vocalConstraint (vocal settings) @
     js ''\<newline>'' @ structureConstraint (structure settings) @
     js ''\<newline>Language: '' @ langConstraint lyricsLanguage @
     js ''\<newline>'' @ (if hasIntro then js ''Include [Instrumental Intro]'' else []) @
     js ''\<newline>'' @ (if isRadioEdit then js ''Keep under 3 minutes (Radio Edit)'' else []) @
     js ''\<newline>\<newline>[CRITICAL OUTPUT RULE]\<newline>BPM and Musical Key MUST appear inside ## Tags.\<newline>''"

subsection \<open>Sessions and the fallback\<close>

text \<open>
  The chat session \<^verbatim>\<open>createSession\<close> asks the SDK for: the model, the configuration and
  the history (the parameters \<open>mdl\<close> and \<open>hist\<close> are the source's \<^verbatim>\<open>model\<close> and
  \<^verbatim>\<open>history\<close>). \<^verbatim>\<open>systemInstruction\<close> is the same constant in every session and is left
  out; \<^verbatim>\<open>thinkingConfig\<close> holds the thinking budget, \<^verbatim>\<open>tools\<close> is absent or holds the
  search tool. A history entry is a role with the texts of its parts.
\<close>

datatype Tool = googleSearch

record Config =
  temperature :: real
  thinkingConfig :: "nat option"
  tools :: "Tool list option"

type_synonym Content = "jsstring \<times> jsstring list"

record Chat =
  model :: jsstring
  config :: Config
  history :: "Content list"

definition createSession ::
  "GeneratorMode \<Rightarrow> AppSettings \<Rightarrow> Content list \<Rightarrow> jsstring \<Rightarrow> bool \<Rightarrow> Chat" where
  "createSession mode appSettings hist mdl enableTools =
     \<lparr>model = mdl,
      config = \<lparr>temperature = Generation.temperature (generation appSettings),
                thinkingConfig = (if mode = THINKING then Some 32768 else None),
                tools = (if enableTools then Some [googleSearch] else None)\<rparr>,
      history = hist\<rparr>"

definition modelName :: "AppSettings \<Rightarrow> GeneratorMode \<Rightarrow> jsstring" where
  "modelName appSettings mode =
     (let modelName =
        (if modelPreference (generation appSettings) = js ''quality''
         then js ''gemini-3-pro-preview'' else js ''gemini-2.5-flash'')
      in if mode = THINKING then js ''gemini-3-pro-preview'' else modelName)"

text \<open>
  Of the reply of the SDK the sources read \<^verbatim>\<open>response.text\<close> only, which may be undefined:
  a reply is its text. \<^verbatim>\<open>signal?.aborted\<close> reads the flag of the optional signal at the
  moment the \<^verbatim>\<open>catch\<close> block runs.
\<close>

type_synonym GenerateContentResponse = "jsstring option"

record AbortSignal =
  aborted :: bool

text \<open>
  One request to the model: the session it is sent on and the message.
\<close>

record Request =
  chat :: Chat
  message :: jsstring

text \<open>
  \<^verbatim>\<open>generateContentResponse\<close>. The client that \<^verbatim>\<open>getClient()\<close> builds is the environment:
  \<open>sdk n r\<close> is how the \<open>n\<close>-th request of this invocation ends when it is \<open>r\<close>, resolved
  with a reply (\<open>Inr\<close>) or rejected with an error (\<open>Inl\<close>); \<^verbatim>\<open>createSession\<close> and
  \<^verbatim>\<open>sendMessage\<close> are taken together, as the \<^verbatim>\<open>try\<close> block has them, so an error of either
  reaches the \<^verbatim>\<open>catch\<close> block. The function returns how the promise settles and the
  requests made, in order; \<open>hist\<close> is the source's \<^verbatim>\<open>history\<close>.
\<close>

definition generateContentResponse ::
  "jsstring \<Rightarrow> GeneratorMode \<Rightarrow> StudioSettings \<Rightarrow> AppSettings \<Rightarrow> bool \<Rightarrow> bool \<Rightarrow>
   LyricsLanguage \<Rightarrow> Content list \<Rightarrow> AbortSignal option \<Rightarrow>
   (nat \<Rightarrow> Request \<Rightarrow> 'e + GenerateContentResponse) \<Rightarrow>
   ('e + GenerateContentResponse) \<times> Request list" where
  "generateContentResponse prompt mode settings appSettings isRadioEdit hasIntro
     lyricsLanguage hist signal sdk =
     (let (finalPrompt, useSearch) = mode_logic prompt mode;
          finalPrompt = finalPrompt @ studio_settings settings isRadioEdit hasIntro lyricsLanguage;
          first = \<lparr>chat = createSession mode appSettings hist (modelName appSettings mode) useSearch,
                   message = finalPrompt\<rparr>
      in case sdk 0 first of
           Inr response \<Rightarrow> (Inr response, [first])
         | Inl err \<Rightarrow>
             if (case signal of None \<Rightarrow> False | Some s \<Rightarrow> aborted s) then (Inl err, [first])
             else (let fallback =
                         \<lparr>chat = createSession mode appSettings hist (js ''gemini-2.5-flash'') False,
                          message = finalPrompt\<rparr>
                   in (sdk 1 fallback, [first, fallback])))"

section \<open>The chat session of \<^verbatim>\<open>App.tsx\<close>\<close>

text \<open>\<^verbatim>\<open>Date.now().toString()\<close>: the decimal digits of a time stamp.\<close>

function toString :: "nat \<Rightarrow> jsstring" where
  "toString n =
     (if n < 10 then [of_nat (48 + n)] else toString (n div 10) @ [of_nat (48 + n mod 10)])"
  by pat_completeness auto
termination
  by (relation "measure (\<lambda>n. n)") auto

declare toString.simps [simp del]

record Message =
  mid :: jsstring
  role :: jsstring
  content :: jsstring

text \<open>
  A call of \<^verbatim>\<open>handleSend\<close> that waits for \<^verbatim>\<open>generateContentResponse\<close>: the
  \<^verbatim>\<open>AbortController\<close> it created and the id it chose for the reply.
\<close>

record Pending =
  controller :: nat
  assistantId :: jsstring

text \<open>
  The state of the component that \<^verbatim>\<open>handleSend\<close> and \<^verbatim>\<open>handleClear\<close> read and write.
  \<open>controllers\<close> holds the \<^verbatim>\<open>aborted\<close> flag of every \<^verbatim>\<open>AbortController\<close> created so far; a
  controller is its index. \<^verbatim>\<open>historyRef.current\<close> is kept equal to the messages by the effect
  that runs after every change of \<^verbatim>\<open>messages\<close>, \<^verbatim>\<open>messages.map(m => ({role, parts: [{text}]}))\<close>,
  so the history is \<open>map history_entry (messages s)\<close>. Sounds, the toast, the input box and
  the panels are left out: no branch below reads them.
\<close>

record App =
  messages :: "Message list"
  isLoading :: bool
  isGenerating :: bool
  isDevMode :: bool
  abortControllerRef :: "nat option"
  controllers :: "bool list"
  inflight :: "Pending list"

definition history_entry :: "Message \<Rightarrow> Content" where
  "history_entry m = (role m, [content m])"

definition historyRef :: "App \<Rightarrow> Content list" where
  "historyRef s = map history_entry (messages s)"

text \<open>
  \<^verbatim>\<open>text.trim().toLowerCase() === 'dain'\<close>: no character outside ASCII has a lower case
  among d, a, i, n, so the test compares letter by letter, ignoring ASCII case.
\<close>

definition lower_ascii :: "jschar \<Rightarrow> jschar" where
  "lower_ascii c = (if 0x41 \<le> c \<and> c \<le> 0x5A then c + 0x20 else c)"

definition is_dain :: "jsstring \<Rightarrow> bool" where
  "is_dain s = (map lower_ascii s = js ''dain'')"

text \<open>
  The text shown for the user's turn. The pictographs are written as their UTF-16 code
  units. The last branch of the source, for a mode other than the seven, is unreachable.
\<close>

definition displayContent :: "jsstring \<Rightarrow> GeneratorMode \<Rightarrow> jsstring" where
  "displayContent text mode =
     (if mode = RANDOM then [0xD83C, 0xDFB2] @ js '' Generating Random Hit...''
      else if mode = TRENDING then [0xD83D, 0xDD25] @ js '' Analyzing Trends & Generating...''
      else if mode = CRAZY then [0x26A1] @ js '' Going Crazy Mode...''
      else if mode = KPOP_RANDOM then [0x2728] @ js '' Generating K-Pop Hit...''
      else if mode = KPOP_3_VOICES then [0xD83D, 0xDC65] @ js '' Generating Trio Track...''
      else if mode = THINKING
      then [0xD83E, 0xDDE0] @ js '' [Deep Think] '' @
           (if text \<noteq> [] then text else js ''Complex Masterpiece'')
      else text)"

text \<open>\<^verbatim>\<open>controller.abort()\<close> and \<^verbatim>\<open>controller.signal.aborted\<close>.\<close>

definition abort :: "nat \<Rightarrow> App \<Rightarrow> App" where
  "abort c s = s\<lparr>controllers := (controllers s)[c := True]\<rparr>"

definition signal_aborted :: "App \<Rightarrow> nat \<Rightarrow> bool" where
  "signal_aborted s c = (c < length (controllers s) \<and> controllers s ! c)"

text \<open>
  \<^verbatim>\<open>handleSend\<close> up to its \<^verbatim>\<open>await\<close>: \<open>now\<close> and \<open>now'\<close> are what the two calls of
  \<^verbatim>\<open>Date.now()\<close> return.
\<close>

definition handleSend :: "jsstring \<Rightarrow> GeneratorMode \<Rightarrow> nat \<Rightarrow> nat \<Rightarrow> App \<Rightarrow> App" where
  "handleSend text mode now now' s =
     (if mode = NORMAL \<and> is_dain (trim text) then s\<lparr>isDevMode := True\<rparr>
      else if trim text = [] \<and> mode = NORMAL then s
      else
        (let s = (case abortControllerRef s of Some c \<Rightarrow> abort c s | None \<Rightarrow> s);
             c = length (controllers s);
             s = s\<lparr>controllers := controllers s @ [False], abortControllerRef := Some c\<rparr>;
             userMsg = \<lparr>mid = toString now, role = js ''user'',
                        content = displayContent text mode\<rparr>;
             s = s\<lparr>messages := messages s @ [userMsg], isLoading := True, isGenerating := True\<rparr>;
             assistantId = toString (now' + 1)
         in s\<lparr>inflight := inflight s @ [\<lparr>controller = c, assistantId = assistantId\<rparr>]\<rparr>))"

text \<open>
  \<^verbatim>\<open>handleSend\<close> after its \<^verbatim>\<open>await\<close>, for the call \<open>p\<close>, when \<^verbatim>\<open>generateContentResponse\<close>
  has settled with \<open>outcome\<close>: the \<^verbatim>\<open>try\<close> branch for a reply, the \<^verbatim>\<open>catch\<close> branch for an
  error (it logs or shows a toast), then the \<^verbatim>\<open>finally\<close> block.
\<close>

definition resume :: "Pending \<Rightarrow> 'e + GenerateContentResponse \<Rightarrow> App \<Rightarrow> App" where
  "resume p outcome s =
     (let s =
        (case outcome of
           Inr response \<Rightarrow>
             if signal_aborted s (controller p) then s
             else (case response of
                     None \<Rightarrow> s
                   | Some responseText \<Rightarrow>
                       if responseText \<noteq> []
                       then s\<lparr>messages := messages s @
                              [\<lparr>mid = assistantId p, role = js ''model'', content = responseText\<rparr>]\<rparr>
                       else s)
         | Inl err \<Rightarrow> s)
      in if abortControllerRef s = Some (controller p)
         then s\<lparr>isLoading := False, isGenerating := False, abortControllerRef := None\<rparr>
         else s)"

definition handleClear :: "App \<Rightarrow> App" where
  "handleClear s =
     (let s = (case abortControllerRef s of
                 Some c \<Rightarrow> (abort c s)\<lparr>abortControllerRef := None\<rparr>
               | None \<Rightarrow> s);
          s = s\<lparr>isLoading := False, isGenerating := False\<rparr>;
          resetMessage = \<lparr>mid = js ''welcome'', role = js ''model'',
                          content = js ''Session cleared. Ready for a new track.''\<rparr>
      in s\<lparr>messages := [resetMessage]\<rparr>)"

text \<open>
  What can happen to the component: the user sends, the user clears, or the request that
  holds controller \<open>c\<close> settles. A settlement for a controller that no waiting call holds
  does nothing; a call that settles stops waiting.
\<close>

datatype 'e Event =
  Send jsstring GeneratorMode nat nat
| Settle nat "'e + GenerateContentResponse"
| Clear

definition step :: "App \<Rightarrow> 'e Event \<Rightarrow> App" where
  "step s e =
     (case e of
        Send text mode now now' \<Rightarrow> handleSend text mode now now' s
      | Clear \<Rightarrow> handleClear s
      | Settle c outcome \<Rightarrow>
          (case find (\<lambda>p. controller p = c) (inflight s) of
             None \<Rightarrow> s
           | Some p \<Rightarrow>
               resume p outcome (s\<lparr>inflight := filter (\<lambda>q. controller q \<noteq> c) (inflight s)\<rparr>)))"

definition run :: "App \<Rightarrow> 'e Event list \<Rightarrow> App" where
  "run s es = foldl step s es"

text \<open>The component as it is mounted: the stored messages, nothing in flight.\<close>

definition mount :: "Message list \<Rightarrow> App" where
  "mount ms = \<lparr>messages = ms, isLoading = False, isGenerating = False, isDevMode = False,
      abortControllerRef = None, controllers = [], inflight = []\<rparr>"


text \<open>
  The state of the controllers that \<^verbatim>\<open>handleSend\<close> and \<^verbatim>\<open>handleClear\<close> maintain: every
  waiting call holds a controller that exists, and a waiting call whose controller is not
  the current one has been aborted.
\<close>

definition superseded_aborted :: "App \<Rightarrow> bool" where
  "superseded_aborted s =
     (\<forall>p \<in> set (inflight s).
        controller p < length (controllers s) \<and>
        (abortControllerRef s \<noteq> Some (controller p) \<longrightarrow> signal_aborted s (controller p)))"

section \<open>The specification's wording, for comparison\<close>

text \<open>
  The tag sequence as the specification words it: the block split on comma and on line
  break alike, each piece trimmed, the empty pieces dropped.
\<close>

definition tags_spec :: "jsstring \<Rightarrow> jsstring list" where
  "tags_spec block =
     filter (\<lambda>t. t \<noteq> []) (map trim (split_on (\<lambda>c. c = 0x2C \<or> c = 0xA) block))"

text \<open>
  The reply text of a song: its fields under the five section headers, in the order and
  the layout that the \<^verbatim>\<open>OUTPUT FORMAT\<close> part of \<^verbatim>\<open>SYSTEM_INSTRUCTION\<close> prescribes, the tags
  joined by \<open>sep\<close>.
\<close>

definition reply_text :: "jsstring \<Rightarrow> ParsedSong \<Rightarrow> jsstring" where
  "reply_text sep song =
     js ''## Title: '' @ title song @
     js ''\<newline>\<newline>## Voice:\<newline>'' @ voice song @
     js ''\<newline>\<newline>## Tags:\<newline>'' @ join sep (tags song) @
     js ''\<newline>\<newline>## Style:\<newline>'' @ style song @
     js ''\<newline>\<newline>## Lyrics:\<newline>'' @ lyrics song"

text \<open>
  What a field needs for the round trip: it holds none of the four headers that the
  parser looks for after the title.
\<close>

definition header_free :: "jsstring \<Rightarrow> bool" where
  "header_free s =
     (\<not> sublist (js ''## Voice:'') s \<and> \<not> sublist (js ''## Tags:'') s \<and>
      \<not> sublist (js ''## Style:'') s \<and> \<not> sublist (js ''## Lyrics:'') s)"

text \<open>A tag that reads back as itself: trimmed, not empty, without comma or line feed.\<close>

definition plain_tag :: "jsstring \<Rightarrow> bool" where
  "plain_tag t =
     (t \<noteq> [] \<and> trim t = t \<and> 0x2C \<notin> set t \<and> 0xA \<notin> set t \<and> header_free t)"

text \<open>A separator of tags: a comma or a line feed, then white space other than line feeds.\<close>

definition tag_separator :: "jsstring \<Rightarrow> bool" where
  "tag_separator sep =
     (case sep of
        [] \<Rightarrow> False
      | d # w \<Rightarrow> (d = 0x2C \<or> d = 0xA) \<and> list_all (\<lambda>c. is_ws c \<and> c \<noteq> 0xA) w)"

section \<open>Properties of the parser\<close>

lemma first_match_SomeD:
  "first_match m s = Some r \<Longrightarrow> \<exists>pre suf. s = pre @ suf \<and> m suf = Some r"
proof (induction s)
  case Nil
  then show ?case by simp
next
  case (Cons c cs)
  show ?case
  proof (cases "m (c # cs)")
    case (Some a)
    with Cons.prems have "m (c # cs) = Some r" by simp
    then show ?thesis by (metis append_Nil)
  next
    case None
    with Cons.prems have "first_match m cs = Some r" by simp
    from Cons.IH[OF this] obtain pre suf where "cs = pre @ suf" "m suf = Some r" by blast
    then have "c # cs = (c # pre) @ suf" by simp
    with \<open>m suf = Some r\<close> show ?thesis by blast
  qed
qed

lemma lit_SomeD: "lit h k s = Some r \<Longrightarrow> prefix h s"
  by (simp add: lit_def split: if_splits)

lemma header_needed: "first_match (lit h k) s = Some r \<Longrightarrow> sublist h s"
proof -
  assume "first_match (lit h k) s = Some r"
  from first_match_SomeD[OF this] obtain pre suf where s: "s = pre @ suf" and "lit h k suf = Some r"
    by blast
  then have "prefix h suf" by (rule_tac lit_SomeD)
  then obtain t where "suf = h @ t" by (auto simp: prefix_def)
  with s show ?thesis by simp
qed

lemma header_absent: "\<not> sublist h s \<Longrightarrow> first_match (lit h k) s = None"
  using header_needed[of h k s] by (cases "first_match (lit h k) s") auto

lemma falsy_None [simp]: "falsy None" by (simp add: falsy_def)

text \<open>
  What the validation gate of the parser does guarantee, in terms of its local constants:
  a returned record has a non-empty title, style and lyrics, which are the trimmed
  captures; whenever one of the three captures is absent or empty the parse returns
  nothing; and a reply without the Title header returns nothing, whatever the other
  sections hold.
\<close>

lemma parse_all_or_nothing:
  "(\<forall>song. parseSongFromText reply = Some song \<longrightarrow>
      title song \<noteq> [] \<and> style song \<noteq> [] \<and> lyrics song \<noteq> [] \<and>
      title_of reply = Some (title song) \<and> style_of reply = Some (style song) \<and>
      lyrics_of reply = Some (lyrics song) \<and> voice song = voice_of reply \<and>
      tags song = tags_of (rawTags_of reply)) \<and>
   (falsy (title_of reply) \<or> falsy (style_of reply) \<or> falsy (lyrics_of reply) \<longrightarrow>
      parseSongFromText reply = None) \<and>
   (\<not> sublist (js ''## Title:'') reply \<longrightarrow> parseSongFromText reply = None)"
proof (intro conjI allI impI)
  fix song assume p: "parseSongFromText reply = Some song"
  then have nf: "\<not> falsy (title_of reply)" "\<not> falsy (style_of reply)" "\<not> falsy (lyrics_of reply)"
    by (auto simp: parseSongFromText_def Let_def split: if_splits)
  then obtain t s l where f: "title_of reply = Some t" "style_of reply = Some s"
      "lyrics_of reply = Some l" "t \<noteq> []" "s \<noteq> []" "l \<noteq> []"
    by (auto simp: falsy_def split: option.splits)
  with p nf have song: "song = \<lparr>title = t, voice = voice_of reply, style = s,
      tags = tags_of (rawTags_of reply), lyrics = l\<rparr>"
    by (simp add: parseSongFromText_def Let_def)
  show "title song \<noteq> []" "style song \<noteq> []" "lyrics song \<noteq> []"
    "title_of reply = Some (title song)" "style_of reply = Some (style song)"
    "lyrics_of reply = Some (lyrics song)" "voice song = voice_of reply"
    "tags song = tags_of (rawTags_of reply)"
    using f by (simp_all add: song)
next
  assume "falsy (title_of reply) \<or> falsy (style_of reply) \<or> falsy (lyrics_of reply)"
  then show "parseSongFromText reply = None"
    by (simp add: parseSongFromText_def Let_def)
next
  assume "\<not> sublist (js ''## Title:'') reply"
  then have "title_of reply = None"
    by (simp add: title_of_def re_title_def header_absent)
  then show "parseSongFromText reply = None"
    by (simp add: parseSongFromText_def Let_def)
qed

text \<open>
  The gate at a reply without the Title header whose other sections are well formed, at a
  reply whose style is empty, and at a reply that parses.
\<close>

lemma parse_all_or_nothing_examples:
  "\<not> sublist (js ''## Title:'')
      (js ''## Voice:\<newline>Male Tenor\<newline>\<newline>## Tags:\<newline>#120 BPM, #A Minor\<newline>\<newline>## Style:\<newline>Deep house\<newline>\<newline>## Lyrics:\<newline>[Verse]\<newline>la la'') \<and>
   parseSongFromText
      (js ''## Voice:\<newline>Male Tenor\<newline>\<newline>## Tags:\<newline>#120 BPM, #A Minor\<newline>\<newline>## Style:\<newline>Deep house\<newline>\<newline>## Lyrics:\<newline>[Verse]\<newline>la la'') = None \<and>
   falsy (style_of (js ''## Title: A\<newline>\<newline>## Style:\<newline>\<newline>## Lyrics:\<newline>la'')) \<and>
   parseSongFromText (js ''## Title: A\<newline>\<newline>## Style:\<newline>\<newline>## Lyrics:\<newline>la'') = None \<and>
   parseSongFromText (js ''## Title: A\<newline>## Style:\<newline>S\<newline>## Lyrics:\<newline>L'') =
     Some \<lparr>title = js ''A'', voice = js ''Not specified'', style = js ''S'', tags = [],
            lyrics = js ''L''\<rparr> \<and>
   js ''A'' \<noteq> [] \<and> js ''S'' \<noteq> [] \<and> js ''L'' \<noteq> []"
proof -
  have h1: "\<not> sublist (js ''## Title:'')
      (js ''## Voice:\<newline>Male Tenor\<newline>\<newline>## Tags:\<newline>#120 BPM, #A Minor\<newline>\<newline>## Style:\<newline>Deep house\<newline>\<newline>## Lyrics:\<newline>[Verse]\<newline>la la'')"
    by code_simp
  have h2: "falsy (style_of (js ''## Title: A\<newline>\<newline>## Style:\<newline>\<newline>## Lyrics:\<newline>la''))"
    by code_simp
  have h3: "parseSongFromText (js ''## Title: A\<newline>## Style:\<newline>S\<newline>## Lyrics:\<newline>L'') =
     Some \<lparr>title = js ''A'', voice = js ''Not specified'', style = js ''S'', tags = [],
            lyrics = js ''L''\<rparr>"
    by code_simp
  show ?thesis
    using h1 h2 h3
      parse_all_or_nothing[of "js ''## Voice:\<newline>Male Tenor\<newline>\<newline>## Tags:\<newline>#120 BPM, #A Minor\<newline>\<newline>## Style:\<newline>Deep house\<newline>\<newline>## Lyrics:\<newline>[Verse]\<newline>la la''"]
      parse_all_or_nothing[of "js ''## Title: A\<newline>\<newline>## Style:\<newline>\<newline>## Lyrics:\<newline>la''"]
      parse_all_or_nothing[of "js ''## Title: A\<newline>## Style:\<newline>S\<newline>## Lyrics:\<newline>L''"]
    by (simp add: js_def)
qed

text \<open>
  C1. The claim wants a reply whose Title is empty to yield nothing, as a reply whose Style
  or Lyrics is empty does. A reply with an empty Title line and well-formed sections
  after it yields a song: the \<^verbatim>\<open>\s*\<close> of the title pattern runs over the line breaks, and
  the next header line, \<^verbatim>\<open>## Voice:\<close>, becomes the title, which is not empty and passes
  the gate. The same reply with its title in place and an empty Style, or empty Lyrics,
  yields nothing.
\<close>

theorem empty_title_line_yields_song:
  "reply_text (js '', '')
      \<lparr>title = js '''', voice = js ''Male Tenor'', style = js ''Deep house'',
       tags = [js ''#120 BPM'', js ''#A Minor''], lyrics = js ''[Verse]\<newline>la la''\<rparr> =
     js ''## Title: \<newline>\<newline>## Voice:\<newline>Male Tenor\<newline>\<newline>## Tags:\<newline>#120 BPM, #A Minor\<newline>\<newline>## Style:\<newline>Deep house\<newline>\<newline>## Lyrics:\<newline>[Verse]\<newline>la la'' \<and>
   parseSongFromText (js ''## Title: \<newline>\<newline>## Voice:\<newline>Male Tenor\<newline>\<newline>## Tags:\<newline>#120 BPM, #A Minor\<newline>\<newline>## Style:\<newline>Deep house\<newline>\<newline>## Lyrics:\<newline>[Verse]\<newline>la la'') =
     Some \<lparr>title = js ''## Voice:'', voice = js ''Male Tenor'', style = js ''Deep house'',
       tags = [js ''#120 BPM'', js ''#A Minor''], lyrics = js ''[Verse]\<newline>la la''\<rparr> \<and>
   parseSongFromText (js ''## Title:\<newline>## Style:\<newline>Deep house\<newline>## Lyrics:\<newline>la la'') =
     Some \<lparr>title = js ''## Style:'', voice = js ''Not specified'', style = js ''Deep house'',
       tags = [], lyrics = js ''la la''\<rparr> \<and>
   parseSongFromText (js ''## Title: Night Drive\<newline>\<newline>## Voice:\<newline>Male Tenor\<newline>\<newline>## Tags:\<newline>#120 BPM, #A Minor\<newline>\<newline>## Style:\<newline>\<newline>\<newline>## Lyrics:\<newline>[Verse]\<newline>la la'') =
     None \<and>
   parseSongFromText (js ''## Title: Night Drive\<newline>\<newline>## Voice:\<newline>Male Tenor\<newline>\<newline>## Tags:\<newline>#120 BPM, #A Minor\<newline>\<newline>## Style:\<newline>Deep house\<newline>\<newline>## Lyrics:\<newline>'') =
     None"
  by code_simp

section \<open>Tags, and the optional sections\<close>

lemma split_on_replace_newlines:
  "split_on (\<lambda>c. c = 0x2C) (replace_newlines s) = split_on (\<lambda>c. c = 0x2C \<or> c = 0xA) s"
proof (induction s)
  case Nil
  then show ?case by (simp add: replace_newlines_def)
next
  case (Cons c cs)
  then show ?case by (simp add: replace_newlines_def)
qed

lemma tags_of_Some: "tags_of (Some block) = tags_spec block"
  by (simp add: tags_of_def tags_spec_def split_on_replace_newlines)

text \<open>
  C2. The tag sequence of a tags block is the block split on comma and on line feed alike,
  each piece trimmed, the empty pieces dropped, order and \<^verbatim>\<open>#\<close> prefixes kept; duplicates
  stay and the sequence may be empty. The block \<^verbatim>\<open>"#120 BPM, #A Minor\n#House"\<close> gives the
  three tags in order; a line break written as carriage return and line feed separates
  too, the carriage return being trimmed away.
\<close>

theorem tags_split_on_comma_and_newline:
  "tags_of (Some block) = tags_spec block \<and>
   (\<forall>song. parseSongFromText reply = Some song \<longrightarrow>
      tags song = (case rawTags_of reply of None \<Rightarrow> [] | Some b \<Rightarrow> tags_spec b)) \<and>
   tags_of (Some (js ''#120 BPM, #A Minor\<newline>#House'')) =
     [js ''#120 BPM'', js ''#A Minor'', js ''#House''] \<and>
   tags_of (Some (js ''#Pop,#Pop'')) = [js ''#Pop'', js ''#Pop''] \<and>
   tags_of (Some (js ''#Pop'' @ [0xD, 0xA] @ js ''#Rock'')) = [js ''#Pop'', js ''#Rock''] \<and>
   tags_of (Some (js '''')) = []"
proof (intro conjI allI impI)
  show "tags_of (Some block) = tags_spec block" by (rule tags_of_Some)
next
  fix song assume "parseSongFromText reply = Some song"
  then have "tags song = tags_of (rawTags_of reply)"
    by (auto simp: parseSongFromText_def Let_def split: if_splits)
  then show "tags song = (case rawTags_of reply of None \<Rightarrow> [] | Some b \<Rightarrow> tags_spec b)"
    by (cases "rawTags_of reply") (simp_all add: tags_of_Some, simp add: tags_of_def)
next
  show "tags_of (Some (js ''#120 BPM, #A Minor\<newline>#House'')) =
     [js ''#120 BPM'', js ''#A Minor'', js ''#House'']" by code_simp
  show "tags_of (Some (js ''#Pop,#Pop'')) = [js ''#Pop'', js ''#Pop'']" by code_simp
  show "tags_of (Some (js ''#Pop'' @ [0xD, 0xA] @ js ''#Rock'')) = [js ''#Pop'', js ''#Rock'']"
    by code_simp
  show "tags_of (Some (js '''')) = []" by code_simp
qed

text \<open>
  C2, at a whole reply: the parser extracts the block of the scenario and splits it.
\<close>

theorem tags_split_on_comma_and_newline_witness:
  "parseSongFromText (js ''## Title: Night Drive\<newline>\<newline>## Voice:\<newline>Male Tenor\<newline>\<newline>## Tags:\<newline>#120 BPM, #A Minor\<newline>#House\<newline>\<newline>## Style:\<newline>Deep house\<newline>\<newline>## Lyrics:\<newline>[Verse]\<newline>la la'') =
     Some \<lparr>title = js ''Night Drive'', voice = js ''Male Tenor'', style = js ''Deep house'',
        tags = [js ''#120 BPM'', js ''#A Minor'', js ''#House''], lyrics = js ''[Verse]\<newline>la la''\<rparr> \<and>
   rawTags_of (js ''## Title: Night Drive\<newline>\<newline>## Voice:\<newline>Male Tenor\<newline>\<newline>## Tags:\<newline>#120 BPM, #A Minor\<newline>#House\<newline>\<newline>## Style:\<newline>Deep house\<newline>\<newline>## Lyrics:\<newline>[Verse]\<newline>la la'') =
     Some (js ''#120 BPM, #A Minor\<newline>#House'') \<and>
   tags_spec (js ''#120 BPM, #A Minor\<newline>#House'') = [js ''#120 BPM'', js ''#A Minor'', js ''#House'']"
proof -
  let ?t = "js ''## Title: Night Drive\<newline>\<newline>## Voice:\<newline>Male Tenor\<newline>\<newline>## Tags:\<newline>#120 BPM, #A Minor\<newline>#House\<newline>\<newline>## Style:\<newline>Deep house\<newline>\<newline>## Lyrics:\<newline>[Verse]\<newline>la la''"
  have p: "parseSongFromText ?t =
     Some \<lparr>title = js ''Night Drive'', voice = js ''Male Tenor'', style = js ''Deep house'',
        tags = [js ''#120 BPM'', js ''#A Minor'', js ''#House''], lyrics = js ''[Verse]\<newline>la la''\<rparr>"
    by code_simp
  have r: "rawTags_of ?t = Some (js ''#120 BPM, #A Minor\<newline>#House'')"
    by code_simp
  from tags_split_on_comma_and_newline[of "js ''#120 BPM, #A Minor\<newline>#House''" ?t] p r
  show ?thesis by simp
qed

text \<open>
  C3 as stated fails: Voice is not the only section whose header may be absent. A reply
  without the Tags header parses too.
\<close>

theorem tags_header_optional_counterexample:
  "\<not> sublist (js ''## Tags:'') (js ''## Title: A\<newline>## Style:\<newline>S\<newline>## Lyrics:\<newline>L'') \<and>
   parseSongFromText (js ''## Title: A\<newline>## Style:\<newline>S\<newline>## Lyrics:\<newline>L'') =
     Some \<lparr>title = js ''A'', voice = js ''Not specified'', style = js ''S'', tags = [],
            lyrics = js ''L''\<rparr>"
  by code_simp

text \<open>
  C3, amended. Voice and Tags are the two optional sections: without the Voice header the
  voice is the sentinel \<^verbatim>\<open>"Not specified"\<close>, without the Tags header the tag sequence is
  empty, and the parse goes on with both; a reply without the Title, Style or Lyrics
  header yields nothing. The reply of the scenario, with every header but Voice, parses
  with the sentinel as its voice.
\<close>

theorem voice_and_tags_optional:
  "(\<not> sublist (js ''## Voice:'') reply \<longrightarrow> voice_of reply = js ''Not specified'') \<and>
   (\<not> sublist (js ''## Tags:'') reply \<longrightarrow> tags_of (rawTags_of reply) = []) \<and>
   (\<forall>song. parseSongFromText reply = Some song \<longrightarrow>
      voice song = voice_of reply \<and> tags song = tags_of (rawTags_of reply)) \<and>
   (\<not> sublist (js ''## Title:'') reply \<or> \<not> sublist (js ''## Style:'') reply \<or>
    \<not> sublist (js ''## Lyrics:'') reply \<longrightarrow> parseSongFromText reply = None) \<and>
   parseSongFromText (js ''## Title: Night Drive\<newline>\<newline>## Tags:\<newline>#120 BPM, #A Minor\<newline>\<newline>## Style:\<newline>Deep house\<newline>\<newline>## Lyrics:\<newline>[Verse]\<newline>la la'') =
     Some \<lparr>title = js ''Night Drive'', voice = js ''Not specified'', style = js ''Deep house'',
        tags = [js ''#120 BPM'', js ''#A Minor''], lyrics = js ''[Verse]\<newline>la la''\<rparr>"
proof (intro conjI allI impI)
  assume "\<not> sublist (js ''## Voice:'') reply"
  then show "voice_of reply = js ''Not specified''"
    by (simp add: voice_of_def re_voice_def header_absent)
next
  assume "\<not> sublist (js ''## Tags:'') reply"
  then show "tags_of (rawTags_of reply) = []"
    by (simp add: rawTags_of_def re_tags_def header_absent tags_of_def)
next
  fix song assume "parseSongFromText reply = Some song"
  then show "voice song = voice_of reply" "tags song = tags_of (rawTags_of reply)"
    by (auto simp: parseSongFromText_def Let_def split: if_splits)
next
  assume "\<not> sublist (js ''## Title:'') reply \<or> \<not> sublist (js ''## Style:'') reply \<or>
    \<not> sublist (js ''## Lyrics:'') reply"
  then have "title_of reply = None \<or> style_of reply = None \<or> lyrics_of reply = None"
    by (auto simp: title_of_def style_of_def lyrics_of_def re_title_def re_style_def
        re_lyrics_def header_absent)
  then show "parseSongFromText reply = None"
    by (auto simp: parseSongFromText_def Let_def)
next
  show "parseSongFromText (js ''## Title: Night Drive\<newline>\<newline>## Tags:\<newline>#120 BPM, #A Minor\<newline>\<newline>## Style:\<newline>Deep house\<newline>\<newline>## Lyrics:\<newline>[Verse]\<newline>la la'') =
     Some \<lparr>title = js ''Night Drive'', voice = js ''Not specified'', style = js ''Deep house'',
        tags = [js ''#120 BPM'', js ''#A Minor''], lyrics = js ''[Verse]\<newline>la la''\<rparr>"
    by code_simp
qed

text \<open>
  C3, amended, at replies that lack the Voice and Tags headers, and the Style header.
\<close>

theorem voice_and_tags_optional_witness:
  "\<not> sublist (js ''## Voice:'') (js ''## Title: A\<newline>## Style:\<newline>S\<newline>## Lyrics:\<newline>L'') \<and>
   voice_of (js ''## Title: A\<newline>## Style:\<newline>S\<newline>## Lyrics:\<newline>L'') = js ''Not specified'' \<and>
   \<not> sublist (js ''## Tags:'') (js ''## Title: A\<newline>## Style:\<newline>S\<newline>## Lyrics:\<newline>L'') \<and>
   tags_of (rawTags_of (js ''## Title: A\<newline>## Style:\<newline>S\<newline>## Lyrics:\<newline>L'')) = [] \<and>
   \<not> sublist (js ''## Style:'') (js ''## Title: A\<newline>## Lyrics:\<newline>L'') \<and>
   parseSongFromText (js ''## Title: A\<newline>## Lyrics:\<newline>L'') = None"
proof -
  have h1: "\<not> sublist (js ''## Voice:'') (js ''## Title: A\<newline>## Style:\<newline>S\<newline>## Lyrics:\<newline>L'')"
    by code_simp
  have h2: "\<not> sublist (js ''## Tags:'') (js ''## Title: A\<newline>## Style:\<newline>S\<newline>## Lyrics:\<newline>L'')"
    by code_simp
  have h3: "\<not> sublist (js ''## Style:'') (js ''## Title: A\<newline>## Lyrics:\<newline>L'')"
    by code_simp
  from h1 h2 h3
    voice_and_tags_optional[of "js ''## Title: A\<newline>## Style:\<newline>S\<newline>## Lyrics:\<newline>L''"]
    voice_and_tags_optional[of "js ''## Title: A\<newline>## Lyrics:\<newline>L''"]
  show ?thesis by blast
qed

section \<open>Properties of the request assembler\<close>

lemma mode_logic_useSearch: "snd (mode_logic prompt mode) = True"
  by (simp add: mode_logic_def modePrompts_def trending_entry_def Let_def)

lemma js_eq_Nil [simp]: "(js s = []) = (s = [])"
  by (simp add: js_def)

lemma mode_logic_canned:
  "fst (mode_logic prompt RANDOM) =
     js ''Create a commercially strong hit with an unforgettable hook.''"
  "fst (mode_logic prompt CRAZY) =
     js ''Fuse incompatible genres into an experimental but coherent track.''"
  "fst (mode_logic prompt KPOP_RANDOM) =
     js ''Create a top-tier K-Pop song with strong English hooks.''"
  "fst (mode_logic prompt KPOP_3_VOICES) =
     js ''Create a K-Pop trio. Use strict bracketed singer tags.''"
  "fst (mode_logic prompt TRENDING) =
     js ''Search current 2024'' @ [0x2013] @ js ''2025 viral music trends and write a hit.''"
  by (simp_all add: mode_logic_def modePrompts_def trending_entry_def Let_def falsy_def)

lemma mode_logic_NORMAL: "fst (mode_logic prompt NORMAL) = prompt"
  by (simp add: mode_logic_def modePrompts_def trending_entry_def Let_def falsy_def)

lemma mode_logic_THINKING:
  "fst (mode_logic prompt THINKING) =
     (if trim prompt \<noteq> [] then prompt
      else js ''Compose a complex, layered musical masterpiece.'')"
  by (simp add: mode_logic_def modePrompts_def trending_entry_def Let_def falsy_def)

lemma requests_message:
  "r \<in> set (snd (generateContentResponse prompt mode settings appSettings isRadioEdit hasIntro
      lyricsLanguage hist signal sdk)) \<Longrightarrow>
   message r = fst (mode_logic prompt mode) @
     studio_settings settings isRadioEdit hasIntro lyricsLanguage"
  by (auto simp: generateContentResponse_def Let_def split_beta split: sum.splits if_splits)

text \<open>
  C5 as stated fails: THINKING is not the only mode without a fixed directive, since in
  NORMAL mode the directive is the user's text; and in THINKING mode a text that is not
  empty but holds white space only is replaced by the canned directive.
\<close>

theorem canned_modes_counterexample:
  "fst (mode_logic (js ''a sad song'') NORMAL) = js ''a sad song'' \<and>
   fst (mode_logic (js ''a happy song'') NORMAL) = js ''a happy song'' \<and>
   js '' '' \<noteq> [] \<and>
   fst (mode_logic (js '' '') THINKING) = js ''Compose a complex, layered musical masterpiece.''"
  by code_simp

text \<open>
  C5, amended. The five modes RANDOM, CRAZY, KPOP_RANDOM, KPOP_3_VOICES and TRENDING each
  have a fixed directive that replaces the user's text; NORMAL mode has none and keeps the
  user's text as it is; THINKING mode keeps the user's text when it holds a character that
  is not white space and uses its canned directive otherwise. The message of every
  request is the directive followed by the studio settings.
\<close>

theorem mode_directive:
  "fst (mode_logic prompt RANDOM) =
     js ''Create a commercially strong hit with an unforgettable hook.'' \<and>
   fst (mode_logic prompt CRAZY) =
     js ''Fuse incompatible genres into an experimental but coherent track.'' \<and>
   fst (mode_logic prompt KPOP_RANDOM) =
     js ''Create a top-tier K-Pop song with strong English hooks.'' \<and>
   fst (mode_logic prompt KPOP_3_VOICES) =
     js ''Create a K-Pop trio. Use strict bracketed singer tags.'' \<and>
   fst (mode_logic prompt TRENDING) =
     js ''Search current 2024'' @ [0x2013] @ js ''2025 viral music trends and write a hit.'' \<and>
   fst (mode_logic prompt NORMAL) = prompt \<and>
   (trim prompt \<noteq> [] \<longrightarrow> fst (mode_logic prompt THINKING) = prompt) \<and>
   (trim prompt = [] \<longrightarrow>
      fst (mode_logic prompt THINKING) = js ''Compose a complex, layered musical masterpiece.'') \<and>
   (\<forall>r \<in> set (snd (generateContentResponse prompt mode settings appSettings isRadioEdit
        hasIntro lyricsLanguage hist signal sdk)).
      message r = fst (mode_logic prompt mode) @
        studio_settings settings isRadioEdit hasIntro lyricsLanguage)"
  by (simp add: mode_logic_canned mode_logic_NORMAL mode_logic_THINKING requests_message)

text \<open>
  C5, amended, at a text with letters, at the empty text, and at a RANDOM request whose
  two attempts fail.
\<close>

theorem mode_directive_witness:
  "trim (js ''a sad song'') \<noteq> [] \<and>
   fst (mode_logic (js ''a sad song'') THINKING) = js ''a sad song'' \<and>
   trim (js '''') = [] \<and>
   fst (mode_logic (js '''') THINKING) = js ''Compose a complex, layered musical masterpiece.'' \<and>
   length (snd (generateContentResponse (js ''a sad song'') RANDOM
      \<lparr>mood = \<lparr>darkBright = 50, cleanGritty = 50, energy = 50\<rparr>,
       vocal = \<lparr>gender = js ''Any'', texture = js ''Any''\<rparr>, structure = js ''Auto''\<rparr>
      \<lparr>generation = \<lparr>modelPreference = js ''speed'', temperature = 1\<rparr>\<rparr>
      False False ENGLISH [] None (\<lambda>n r. Inl ()))) = 2 \<and>
   map message (snd (generateContentResponse (js ''a sad song'') RANDOM
      \<lparr>mood = \<lparr>darkBright = 50, cleanGritty = 50, energy = 50\<rparr>,
       vocal = \<lparr>gender = js ''Any'', texture = js ''Any''\<rparr>, structure = js ''Auto''\<rparr>
      \<lparr>generation = \<lparr>modelPreference = js ''speed'', temperature = 1\<rparr>\<rparr>
      False False ENGLISH [] None (\<lambda>n r. Inl ()))) =
     replicate 2 (js ''Create a commercially strong hit with an unforgettable hook.'' @
        js ''\<newline>=== STUDIO SETTINGS ===\<newline>Tone: Balanced\<newline>\<newline>\<newline>Language: Lyrics in ENGLISH only.\<newline>\<newline>\<newline>\<newline>[CRITICAL OUTPUT RULE]\<newline>BPM and Musical Key MUST appear inside ## Tags.\<newline>'')"
proof -
  let ?S = "\<lparr>mood = \<lparr>darkBright = 50, cleanGritty = 50, energy = 50\<rparr>,
       vocal = \<lparr>gender = js ''Any'', texture = js ''Any''\<rparr>, structure = js ''Auto''\<rparr>"
  let ?A = "\<lparr>generation = \<lparr>modelPreference = js ''speed'', temperature = 1\<rparr>\<rparr>"
  have t1: "trim (js ''a sad song'') \<noteq> []" by code_simp
  have t2: "trim (js '''') = []" by code_simp
  have len: "length (snd (generateContentResponse (js ''a sad song'') RANDOM ?S ?A
      False False ENGLISH [] None (\<lambda>n r. Inl ()))) = 2"
    by (simp add: generateContentResponse_def Let_def split_beta)
  have blk: "studio_settings ?S False False ENGLISH =
      js ''\<newline>=== STUDIO SETTINGS ===\<newline>Tone: Balanced\<newline>\<newline>\<newline>Language: Lyrics in ENGLISH only.\<newline>\<newline>\<newline>\<newline>[CRITICAL OUTPUT RULE]\<newline>BPM and Musical Key MUST appear inside ## Tags.\<newline>''"
    by (simp add: studio_settings_def moodDesc_def vocalConstraint_def structureConstraint_def
        langConstraint_def js_def)
  let ?R = "snd (generateContentResponse (js ''a sad song'') RANDOM ?S ?A
      False False ENGLISH [] None (\<lambda>n r. Inl ()))"
  let ?X = "js ''Create a commercially strong hit with an unforgettable hook.'' @
      studio_settings ?S False False ENGLISH"
  note d1 = mode_directive[of "js ''a sad song''" RANDOM ?S ?A False False ENGLISH "[]" None
        "\<lambda>n r. Inl ()"]
  note d2 = mode_directive[of "js ''''" RANDOM ?S ?A False False ENGLISH "[]" None
        "\<lambda>n r. Inl ()"]
  from d1 have "\<forall>r \<in> set ?R. message r = ?X" by simp
  then have "map message ?R = map (\<lambda>r. ?X) ?R" by (intro map_cong) simp_all
  then have m: "map message ?R = replicate 2 ?X" by (simp add: map_replicate_const len)
  from d1 t1 have a: "fst (mode_logic (js ''a sad song'') THINKING) = js ''a sad song''"
    by blast
  from d2 t2 have b: "fst (mode_logic (js '''') THINKING) =
      js ''Compose a complex, layered musical masterpiece.''"
    by blast
  show ?thesis
    using t1 t2 len a b m unfolding blk by (intro conjI)
qed

text \<open>
  C6. The claim wants the search flag set for TRENDING only. The code sets
  \<^verbatim>\<open>useSearch\<close> while it builds \<^verbatim>\<open>modePrompts\<close>, for every mode: the first request of every
  invocation carries the search tool, the fallback request never does. In NORMAL mode
  with the text \<^verbatim>\<open>a sad song\<close> the one request made has the search tool.
\<close>

theorem search_flag_always_set:
  "snd (mode_logic prompt mode) = True \<and>
   map (\<lambda>r. tools (config (chat r)))
     (snd (generateContentResponse prompt mode settings appSettings isRadioEdit hasIntro
        lyricsLanguage hist signal sdk)) \<in> {[Some [googleSearch]], [Some [googleSearch], None]} \<and>
   map (\<lambda>r. tools (config (chat r)))
     (snd (generateContentResponse (js ''a sad song'') NORMAL
        \<lparr>mood = \<lparr>darkBright = 50, cleanGritty = 50, energy = 50\<rparr>,
         vocal = \<lparr>gender = js ''Any'', texture = js ''Any''\<rparr>, structure = js ''Auto''\<rparr>
        \<lparr>generation = \<lparr>modelPreference = js ''speed'', temperature = 1\<rparr>\<rparr>
        False False ENGLISH [] None (\<lambda>n r. Inr (Some (js ''## Title: A''))))) =
     [Some [googleSearch]]"
  by (auto simp: generateContentResponse_def Let_def split_beta mode_logic_useSearch
      createSession_def split: sum.splits)




lemma vocal_clause_emitted_iff:
  "(vocalConstraint v \<noteq> []) = (gender v \<noteq> js ''Any'' \<or> texture v \<noteq> js ''Any'')"
  by (simp add: vocalConstraint_def js_def)

lemma vocal_clause_shape:
  "gender v \<noteq> js ''Any'' \<or> texture v \<noteq> js ''Any'' \<Longrightarrow>
   vocalConstraint v = js ''[CONSTRAINT: Voice must be '' @ texture v @ js '' '' @ gender v @ js '']''"
  by (simp add: vocalConstraint_def)

text \<open>
  C8. The claim wants a field left at \<^verbatim>\<open>Any\<close> kept out of the vocal clause. With the gender
  set and the texture left at \<^verbatim>\<open>Any\<close> (or the other way round) the clause of the current
  generator names \<^verbatim>\<open>Any\<close>; the clause of the earlier copy in the same file leaves it out.
\<close>

theorem vocal_clause_names_default_field:
  "vocalConstraint \<lparr>gender = js ''Male'', texture = js ''Any''\<rparr> =
     js ''[CONSTRAINT: Voice must be Any Male]'' \<and>
   vocalConstraint \<lparr>gender = js ''Any'', texture = js ''Raspy''\<rparr> =
     js ''[CONSTRAINT: Voice must be Raspy Any]'' \<and>
   sublist (js ''Any'') (vocalConstraint \<lparr>gender = js ''Male'', texture = js ''Any''\<rparr>) \<and>
   vocalInstruction \<lparr>gender = js ''Male'', texture = js ''Any''\<rparr> =
     js ''[CONSTRAINT: Voice must be  Male]''"
  by code_simp

text \<open>
  C8, at the failing setting: the gender is set, so the clause is emitted, and it names
  the texture left at \<^verbatim>\<open>Any\<close>.
\<close>

theorem vocal_clause_names_default_field_witness:
  "gender \<lparr>gender = js ''Male'', texture = js ''Any''\<rparr> = js ''Male'' \<and>
   texture \<lparr>gender = js ''Male'', texture = js ''Any''\<rparr> = js ''Any'' \<and>
   vocalConstraint \<lparr>gender = js ''Male'', texture = js ''Any''\<rparr> =
     js ''[CONSTRAINT: Voice must be Any Male]''"
  using vocal_clause_names_default_field by simp

text \<open>
  C9. When the first request resolves, its reply is returned and nothing else is sent.
  When it is rejected and the signal is absent or not aborted, exactly one more request
  is made, on \<^verbatim>\<open>gemini-2.5-flash\<close> with the same message, and its outcome, reply or error, is
  the result. When it is rejected and the signal is aborted, the same error is the result
  and nothing else is sent.
\<close>

theorem fallback_retry:
  "case generateContentResponse prompt mode settings appSettings isRadioEdit hasIntro
      lyricsLanguage hist signal sdk of
     (outcome, requests) \<Rightarrow>
       requests \<noteq> [] \<and>
       (case sdk 0 (hd requests) of
          Inr response \<Rightarrow> outcome = Inr response \<and> length requests = 1
        | Inl err \<Rightarrow>
            if (case signal of None \<Rightarrow> False | Some s \<Rightarrow> aborted s)
            then outcome = Inl err \<and> length requests = 1
            else length requests = 2 \<and>
                 model (chat (requests ! 1)) = js ''gemini-2.5-flash'' \<and>
                 message (requests ! 1) = message (hd requests) \<and>
                 outcome = sdk 1 (requests ! 1))"
proof -
  define fp where
    "fp = fst (mode_logic prompt mode) @ studio_settings settings isRadioEdit hasIntro lyricsLanguage"
  define first where
    "first = \<lparr>chat = createSession mode appSettings hist (modelName appSettings mode)
                (snd (mode_logic prompt mode)), message = fp\<rparr>"
  define fb where
    "fb = \<lparr>chat = createSession mode appSettings hist (js ''gemini-2.5-flash'') False,
             message = fp\<rparr>"
  have g: "generateContentResponse prompt mode settings appSettings isRadioEdit hasIntro
      lyricsLanguage hist signal sdk =
      (case sdk 0 first of
         Inr response \<Rightarrow> (Inr response, [first])
       | Inl err \<Rightarrow>
           if (case signal of None \<Rightarrow> False | Some s \<Rightarrow> aborted s) then (Inl err, [first])
           else (sdk 1 fb, [first, fb]))"
    by (cases "sdk 0 first")
      (simp_all add: generateContentResponse_def Let_def split_beta first_def fb_def fp_def)
  have m: "model (chat fb) = js ''gemini-2.5-flash''" "message fb = message first"
    by (simp_all add: fb_def first_def createSession_def)
  show ?thesis
  proof (cases "sdk 0 first")
    case (Inl err)
    then show ?thesis using m by (simp add: g)
  next
    case (Inr response)
    then show ?thesis by (simp add: g)
  qed
qed

text \<open>
  C9, at a request whose two attempts fail, with the signal not aborted and aborted.
\<close>

theorem fallback_retry_witness:
  "generateContentResponse (js ''a sad song'') NORMAL
      \<lparr>mood = \<lparr>darkBright = 50, cleanGritty = 50, energy = 50\<rparr>,
       vocal = \<lparr>gender = js ''Any'', texture = js ''Any''\<rparr>, structure = js ''Auto''\<rparr>
      \<lparr>generation = \<lparr>modelPreference = js ''quality'', temperature = 1\<rparr>\<rparr>
      False False ENGLISH [] (Some \<lparr>aborted = False\<rparr>)
      (\<lambda>n r. if n = 0 then Inl (js ''first'') else Inl (js ''second'')) =
     (Inl (js ''second''),
      [\<lparr>chat = \<lparr>model = js ''gemini-3-pro-preview'',
                config = \<lparr>temperature = 1, thinkingConfig = None, tools = Some [googleSearch]\<rparr>,
                history = []\<rparr>,
        message = js ''a sad song'' @ studio_settings
          \<lparr>mood = \<lparr>darkBright = 50, cleanGritty = 50, energy = 50\<rparr>,
           vocal = \<lparr>gender = js ''Any'', texture = js ''Any''\<rparr>, structure = js ''Auto''\<rparr>
          False False ENGLISH\<rparr>,
       \<lparr>chat = \<lparr>model = js ''gemini-2.5-flash'',
                config = \<lparr>temperature = 1, thinkingConfig = None, tools = None\<rparr>,
                history = []\<rparr>,
        message = js ''a sad song'' @ studio_settings
          \<lparr>mood = \<lparr>darkBright = 50, cleanGritty = 50, energy = 50\<rparr>,
           vocal = \<lparr>gender = js ''Any'', texture = js ''Any''\<rparr>, structure = js ''Auto''\<rparr>
          False False ENGLISH\<rparr>]) \<and>
   fst (generateContentResponse (js ''a sad song'') NORMAL
      \<lparr>mood = \<lparr>darkBright = 50, cleanGritty = 50, energy = 50\<rparr>,
       vocal = \<lparr>gender = js ''Any'', texture = js ''Any''\<rparr>, structure = js ''Auto''\<rparr>
      \<lparr>generation = \<lparr>modelPreference = js ''quality'', temperature = 1\<rparr>\<rparr>
      False False ENGLISH [] (Some \<lparr>aborted = True\<rparr>)
      (\<lambda>n r. if n = 0 then Inl (js ''first'') else Inl (js ''second''))) = Inl (js ''first'') \<and>
   length (snd (generateContentResponse (js ''a sad song'') NORMAL
      \<lparr>mood = \<lparr>darkBright = 50, cleanGritty = 50, energy = 50\<rparr>,
       vocal = \<lparr>gender = js ''Any'', texture = js ''Any''\<rparr>, structure = js ''Auto''\<rparr>
      \<lparr>generation = \<lparr>modelPreference = js ''quality'', temperature = 1\<rparr>\<rparr>
      False False ENGLISH [] (Some \<lparr>aborted = True\<rparr>)
      (\<lambda>n r. if n = 0 then Inl (js ''first'') else Inl (js ''second'')))) = 1"
proof -
  let ?S = "\<lparr>mood = \<lparr>darkBright = 50, cleanGritty = 50, energy = 50\<rparr>,
       vocal = \<lparr>gender = js ''Any'', texture = js ''Any''\<rparr>, structure = js ''Auto''\<rparr>"
  let ?A = "\<lparr>generation = \<lparr>modelPreference = js ''quality'', temperature = 1\<rparr>\<rparr>"
  let ?sdk = "\<lambda>(n::nat) (r::Request). if n = 0 then Inl (js ''first'') else (Inl (js ''second'') :: jsstring + GenerateContentResponse)"
  have run: "generateContentResponse (js ''a sad song'') NORMAL ?S ?A False False ENGLISH []
      (Some \<lparr>aborted = False\<rparr>) ?sdk =
     (Inl (js ''second''),
      [\<lparr>chat = \<lparr>model = js ''gemini-3-pro-preview'',
                config = \<lparr>temperature = 1, thinkingConfig = None, tools = Some [googleSearch]\<rparr>,
                history = []\<rparr>,
        message = js ''a sad song'' @ studio_settings ?S False False ENGLISH\<rparr>,
       \<lparr>chat = \<lparr>model = js ''gemini-2.5-flash'',
                config = \<lparr>temperature = 1, thinkingConfig = None, tools = None\<rparr>,
                history = []\<rparr>,
        message = js ''a sad song'' @ studio_settings ?S False False ENGLISH\<rparr>])"
    by (simp add: generateContentResponse_def Let_def split_beta mode_logic_NORMAL
        mode_logic_useSearch createSession_def modelName_def)
  show ?thesis
    using fallback_retry[where prompt = "js ''a sad song''" and mode = NORMAL and settings = ?S
        and appSettings = ?A and isRadioEdit = False and hasIntro = False
        and lyricsLanguage = ENGLISH and hist = "[]"
        and signal = "Some \<lparr>aborted = False\<rparr>" and sdk = ?sdk]
      fallback_retry[where prompt = "js ''a sad song''" and mode = NORMAL and settings = ?S
        and appSettings = ?A and isRadioEdit = False and hasIntro = False
        and lyricsLanguage = ENGLISH and hist = "[]"
        and signal = "Some \<lparr>aborted = True\<rparr>" and sdk = ?sdk]
    by (simp add: run split_beta length_Suc_conv split: prod.splits)
qed

section \<open>Properties of the chat session\<close>

lemma aborted_after_update:
  "j < length xs \<Longrightarrow> (i \<noteq> j \<longrightarrow> xs ! j) \<Longrightarrow> xs[i := True] ! j"
  by (cases "i = j") simp_all

lemma inv_mount: "superseded_aborted (mount ms)"
  by (simp add: superseded_aborted_def mount_def)

lemma inv_handleSend:
  assumes "superseded_aborted s"
  shows "superseded_aborted (handleSend text mode now now' s)"
proof (cases "abortControllerRef s")
  case None
  with assms show ?thesis
    by (auto simp: superseded_aborted_def handleSend_def Let_def signal_aborted_def
        nth_append)
next
  case (Some c)
  with assms show ?thesis
    by (auto simp: superseded_aborted_def handleSend_def Let_def signal_aborted_def
        abort_def nth_append intro!: aborted_after_update)
qed

lemma inv_handleClear:
  assumes "superseded_aborted s"
  shows "superseded_aborted (handleClear s)"
proof (cases "abortControllerRef s")
  case None
  with assms show ?thesis
    by (auto simp: superseded_aborted_def handleClear_def Let_def signal_aborted_def)
next
  case (Some c)
  with assms show ?thesis
    by (auto simp: superseded_aborted_def handleClear_def Let_def signal_aborted_def
        abort_def intro!: aborted_after_update)
qed

lemma resume_controllers [simp]: "controllers (resume p outcome s) = controllers s"
  by (simp add: resume_def Let_def split: sum.splits option.splits)

lemma resume_inflight [simp]: "inflight (resume p outcome s) = inflight s"
  by (simp add: resume_def Let_def split: sum.splits option.splits)

lemma resume_ref:
  "abortControllerRef (resume p outcome s) =
     (if abortControllerRef s = Some (controller p) then None else abortControllerRef s)"
  by (simp add: resume_def Let_def split: sum.splits option.splits)

lemma inv_settle:
  assumes "superseded_aborted s"
  shows "superseded_aborted (step s (Settle c outcome))"
proof (cases "find (\<lambda>p. controller p = c) (inflight s)")
  case None
  with assms show ?thesis by (simp add: step_def)
next
  case (Some p)
  then have cp: "controller p = c" by (auto simp: find_Some_iff)
  with assms Some show ?thesis
    by (auto simp: step_def superseded_aborted_def signal_aborted_def resume_ref)
qed

lemma inv_step: "superseded_aborted s \<Longrightarrow> superseded_aborted (step s e)"
  by (cases e) (simp_all add: inv_settle, simp_all add: step_def inv_handleSend inv_handleClear)

lemma inv_run: "superseded_aborted s \<Longrightarrow> superseded_aborted (run s es)"
  unfolding run_def by (induction es arbitrary: s) (simp_all add: inv_step)

lemma settle_rejected: "messages (step s (Settle c (Inl err))) = messages s"
  by (simp add: step_def resume_def Let_def split: option.splits)

lemma settle_aborted:
  "signal_aborted s c \<Longrightarrow> messages (step s (Settle c outcome)) = messages s"
  by (auto simp: step_def resume_def Let_def signal_aborted_def find_Some_iff
      split: option.splits sum.splits)

lemma settle_appends:
  "messages (step s (Settle c outcome)) \<noteq> messages s \<Longrightarrow>
   \<exists>p responseText. find (\<lambda>p. controller p = c) (inflight s) = Some p \<and>
     outcome = Inr (Some responseText) \<and> responseText \<noteq> [] \<and> \<not> signal_aborted s c \<and>
     messages (step s (Settle c outcome)) =
       messages s @ [\<lparr>mid = assistantId p, role = js ''model'', content = responseText\<rparr>]"
  by (auto simp: step_def resume_def Let_def signal_aborted_def find_Some_iff
      split: option.splits sum.splits if_splits)

lemma send_messages:
  "messages (step s (Send text mode now now')) =
     (if mode = NORMAL \<and> is_dain (trim text) \<or> trim text = [] \<and> mode = NORMAL
      then messages s
      else messages s @
        [\<lparr>mid = toString now, role = js ''user'', content = displayContent text mode\<rparr>])"
  by (simp add: step_def handleSend_def Let_def abort_def split: option.splits)

text \<open>
  C10 as stated fails: the history is appended to before any reply. The user's turn is
  appended when the request is sent and stays, in the messages and in the history handed
  to the next request, when the request fails, and when the request is superseded and its
  reply dropped.
\<close>

theorem history_appended_before_reply_counterexample:
  "messages (run (mount []) [Send (js ''hi'') NORMAL 1000 1000, Settle 0 (Inl ())]) =
     [\<lparr>mid = js ''1000'', role = js ''user'', content = js ''hi''\<rparr>] \<and>
   historyRef (run (mount []) [Send (js ''hi'') NORMAL 1000 1000, Settle 0 (Inl ())]) =
     [(js ''user'', [js ''hi''])] \<and>
   messages (run (mount [])
      [Send (js ''first'') NORMAL 1000 1000, Send (js ''second'') NORMAL 2000 2000,
       Settle 0 (Inr (Some (js ''reply to first''))) :: unit Event]) =
     [\<lparr>mid = js ''1000'', role = js ''user'', content = js ''first''\<rparr>,
      \<lparr>mid = js ''2000'', role = js ''user'', content = js ''second''\<rparr>]"
  by code_simp

lemma step_Clear [simp]: "step s Clear = handleClear s"
  by (simp add: step_def)

lemma clear_messages:
  "messages (handleClear s) =
     [\<lparr>mid = js ''welcome'', role = js ''model'',
       content = js ''Session cleared. Ready for a new track.''\<rparr>]"
  by (simp add: handleClear_def Let_def split: option.splits)

lemma clear_ref: "abortControllerRef (handleClear s) = None"
  by (simp add: handleClear_def Let_def abort_def split: option.splits)

lemma clear_aborts:
  assumes "superseded_aborted s"
  shows "\<forall>p \<in> set (inflight (handleClear s)). signal_aborted (handleClear s) (controller p)"
  using inv_handleClear[OF assms] by (simp add: superseded_aborted_def clear_ref)

lemma step_messages_cases:
  "messages (step s e) = messages s \<or>
   (\<exists>m. messages (step s e) = messages s @ [m]) \<or>
   e = Clear \<and> messages (step s e) =
     [\<lparr>mid = js ''welcome'', role = js ''model'',
       content = js ''Session cleared. Ready for a new track.''\<rparr>]"
proof (cases e)
  case (Send a m t1 t2)
  then show ?thesis by (simp add: send_messages)
next
  case (Settle c outcome)
  then show ?thesis using settle_appends[of s c outcome] by auto
next
  case Clear
  then show ?thesis by (simp add: clear_messages)
qed

text \<open>
  C10, amended. In every state the component reaches from its mounting by sends, clears
  and settlements:
  a request that fails appends nothing; a reply to a request whose controller is aborted
  appends nothing; a waiting call that does not hold the current controller appends
  nothing however it settles; after a send every waiting call but the newest is aborted,
  and after a clear every waiting call is; when a settlement changes the messages at all,
  the request was waiting, not aborted, resolved with a text that is not empty, and
  exactly the model's message with that text is appended. The user's turn is appended when
  the request is sent, before any reply. A clear replaces the messages by the reset
  message alone. Every step leaves the messages as they were, appends one message, or,
  being a clear, resets them.
\<close>

theorem reply_appended_only_on_success:
  assumes "s = run (mount ms) es"
  shows
    "messages (step s (Settle c (Inl err))) = messages s \<and>
     (signal_aborted s c \<longrightarrow> messages (step s (Settle c outcome)) = messages s) \<and>
     (\<forall>p \<in> set (inflight s).
        abortControllerRef s \<noteq> Some (controller p) \<longrightarrow>
        messages (step s (Settle (controller p) outcome)) = messages s) \<and>
     (\<forall>p \<in> set (inflight (step s (Send text mode now now'))).
        abortControllerRef (step s (Send text mode now now')) \<noteq> Some (controller p) \<longrightarrow>
        signal_aborted (step s (Send text mode now now')) (controller p)) \<and>
     (messages (step s (Settle c outcome)) \<noteq> messages s \<longrightarrow>
        (\<exists>p responseText.
           find (\<lambda>p. controller p = c) (inflight s) = Some p \<and>
           outcome = Inr (Some responseText) \<and> responseText \<noteq> [] \<and>
           \<not> signal_aborted s c \<and>
           messages (step s (Settle c outcome)) =
             messages s @ [\<lparr>mid = assistantId p, role = js ''model'', content = responseText\<rparr>])) \<and>
     messages (step s (Send text mode now now')) =
       (if mode = NORMAL \<and> is_dain (trim text) \<or> trim text = [] \<and> mode = NORMAL
        then messages s
        else messages s @
          [\<lparr>mid = toString now, role = js ''user'', content = displayContent text mode\<rparr>]) \<and>
     messages (step s Clear) =
       [\<lparr>mid = js ''welcome'', role = js ''model'',
         content = js ''Session cleared. Ready for a new track.''\<rparr>] \<and>
     abortControllerRef (step s Clear) = None \<and>
     (\<forall>p \<in> set (inflight (step s Clear)). signal_aborted (step s Clear) (controller p)) \<and>
     (messages (step s e) = messages s \<or>
      (\<exists>m. messages (step s e) = messages s @ [m]) \<or>
      e = Clear \<and> messages (step s e) =
        [\<lparr>mid = js ''welcome'', role = js ''model'',
          content = js ''Session cleared. Ready for a new track.''\<rparr>])"
proof -
  have inv: "superseded_aborted s"
    unfolding assms by (rule inv_run) (rule inv_mount)
  have a: "\<forall>p \<in> set (inflight s).
        abortControllerRef s \<noteq> Some (controller p) \<longrightarrow>
        messages (step s (Settle (controller p) outcome)) = messages s"
    using inv by (auto simp: superseded_aborted_def intro: settle_aborted)
  have "superseded_aborted (step s (Send text mode now now' :: 'a Event))"
    using inv by (rule inv_step)
  then have b: "\<forall>p \<in> set (inflight (step s (Send text mode now now' :: 'a Event))).
        abortControllerRef (step s (Send text mode now now' :: 'a Event)) \<noteq> Some (controller p) \<longrightarrow>
        signal_aborted (step s (Send text mode now now' :: 'a Event)) (controller p)"
    by (simp add: superseded_aborted_def)
  have b': "\<forall>p \<in> set (inflight (step s (Send text mode now now'))).
        abortControllerRef (step s (Send text mode now now')) \<noteq> Some (controller p) \<longrightarrow>
        signal_aborted (step s (Send text mode now now')) (controller p)"
    using b by (simp add: step_def)
  have settle: "messages (step s (Settle c (Inl err))) = messages s \<and>
     (signal_aborted s c \<longrightarrow> messages (step s (Settle c outcome)) = messages s) \<and>
     (messages (step s (Settle c outcome)) \<noteq> messages s \<longrightarrow>
        (\<exists>p responseText.
           find (\<lambda>p. controller p = c) (inflight s) = Some p \<and>
           outcome = Inr (Some responseText) \<and> responseText \<noteq> [] \<and>
           \<not> signal_aborted s c \<and>
           messages (step s (Settle c outcome)) =
             messages s @ [\<lparr>mid = assistantId p, role = js ''model'', content = responseText\<rparr>]))"
    using settle_appends[of s c outcome] by (simp add: settle_rejected settle_aborted)
  have clear: "messages (step s Clear) =
       [\<lparr>mid = js ''welcome'', role = js ''model'',
         content = js ''Session cleared. Ready for a new track.''\<rparr>] \<and>
     abortControllerRef (step s Clear) = None \<and>
     (\<forall>p \<in> set (inflight (step s Clear)). signal_aborted (step s Clear) (controller p))"
    using clear_aborts[OF inv] by (simp add: clear_messages clear_ref)
  show ?thesis
    using a b' settle clear step_messages_cases[of s e] by (simp add: send_messages)
qed

text \<open>
  C10, amended, at a session where a second request supersedes the first: the first
  controller is aborted, a late reply to the first request and a failure of the second
  leave the messages as they are, a reply to the second is appended, and a clear leaves
  the reset message alone and the second controller aborted.
\<close>

theorem reply_appended_only_on_success_witness:
  "signal_aborted (run (mount [])
      [Send (js ''first'') NORMAL 1000 1000, Send (js ''second'') NORMAL 2000 2000 :: unit Event]) 0 \<and>
   messages (step (run (mount [])
      [Send (js ''first'') NORMAL 1000 1000, Send (js ''second'') NORMAL 2000 2000 :: unit Event])
      (Settle 0 (Inr (Some (js ''late reply''))) :: unit Event)) =
     [\<lparr>mid = js ''1000'', role = js ''user'', content = js ''first''\<rparr>,
      \<lparr>mid = js ''2000'', role = js ''user'', content = js ''second''\<rparr>] \<and>
   messages (step (run (mount [])
      [Send (js ''first'') NORMAL 1000 1000, Send (js ''second'') NORMAL 2000 2000 :: unit Event])
      (Settle 1 (Inl ()))) =
     [\<lparr>mid = js ''1000'', role = js ''user'', content = js ''first''\<rparr>,
      \<lparr>mid = js ''2000'', role = js ''user'', content = js ''second''\<rparr>] \<and>
   messages (step (run (mount [])
      [Send (js ''first'') NORMAL 1000 1000, Send (js ''second'') NORMAL 2000 2000 :: unit Event])
      (Settle 1 (Inr (Some (js ''reply''))) :: unit Event)) =
     [\<lparr>mid = js ''1000'', role = js ''user'', content = js ''first''\<rparr>,
      \<lparr>mid = js ''2000'', role = js ''user'', content = js ''second''\<rparr>,
      \<lparr>mid = js ''2001'', role = js ''model'', content = js ''reply''\<rparr>] \<and>
   messages (step (run (mount [])
      [Send (js ''first'') NORMAL 1000 1000, Send (js ''second'') NORMAL 2000 2000 :: unit Event])
      (Clear :: unit Event)) =
     [\<lparr>mid = js ''welcome'', role = js ''model'',
       content = js ''Session cleared. Ready for a new track.''\<rparr>] \<and>
   map controller (inflight (step (run (mount [])
      [Send (js ''first'') NORMAL 1000 1000, Send (js ''second'') NORMAL 2000 2000 :: unit Event])
      (Clear :: unit Event))) = [0, 1] \<and>
   signal_aborted (step (run (mount [])
      [Send (js ''first'') NORMAL 1000 1000, Send (js ''second'') NORMAL 2000 2000 :: unit Event])
      (Clear :: unit Event)) 1"
proof -
  let ?es = "[Send (js ''first'') NORMAL 1000 1000, Send (js ''second'') NORMAL 2000 2000 :: unit Event]"
  let ?s = "run (mount []) ?es"
  have ab: "signal_aborted ?s 0" by code_simp
  have ms: "messages ?s =
     [\<lparr>mid = js ''1000'', role = js ''user'', content = js ''first''\<rparr>,
      \<lparr>mid = js ''2000'', role = js ''user'', content = js ''second''\<rparr>]"
    by code_simp
  have ok: "messages (step ?s (Settle 1 (Inr (Some (js ''reply''))) :: unit Event)) =
     [\<lparr>mid = js ''1000'', role = js ''user'', content = js ''first''\<rparr>,
      \<lparr>mid = js ''2000'', role = js ''user'', content = js ''second''\<rparr>,
      \<lparr>mid = js ''2001'', role = js ''model'', content = js ''reply''\<rparr>]"
    by code_simp
  have fl: "map controller (inflight (step ?s (Clear :: unit Event))) = [0, 1]"
    by code_simp
  note t1 = reply_appended_only_on_success[OF refl, where ms = "[]" and es = ?es and c = 0
      and outcome = "Inr (Some (js ''late reply'')) :: unit + GenerateContentResponse"]
  note t2 = reply_appended_only_on_success[OF refl, where ms = "[]" and es = ?es and c = 1
      and err = "()"]
  have late: "messages (step ?s (Settle 0 (Inr (Some (js ''late reply''))) :: unit Event)) =
      messages ?s"
    by (rule t1[THEN conjunct2, THEN conjunct1, THEN mp, OF ab])
  have failed: "messages (step ?s (Settle 1 (Inl ()) :: unit Event)) = messages ?s"
    by (rule t2[THEN conjunct1])
  note rest = t2[THEN conjunct2, THEN conjunct2, THEN conjunct2, THEN conjunct2,
      THEN conjunct2, THEN conjunct2]
  have cleared: "messages (step ?s (Clear :: unit Event)) =
     [\<lparr>mid = js ''welcome'', role = js ''model'',
       content = js ''Session cleared. Ready for a new track.''\<rparr>]"
    by (rule rest[THEN conjunct1])
  have "\<forall>p \<in> set (inflight (step ?s (Clear :: unit Event))).
      signal_aborted (step ?s (Clear :: unit Event)) (controller p)"
    by (rule rest[THEN conjunct2, THEN conjunct2, THEN conjunct1])
  then have "\<forall>c \<in> set (map controller (inflight (step ?s (Clear :: unit Event)))).
      signal_aborted (step ?s (Clear :: unit Event)) c"
    by simp
  then have ca: "signal_aborted (step ?s (Clear :: unit Event)) 1"
    unfolding fl by simp
  show ?thesis
  proof (intro conjI)
    show "signal_aborted ?s 0" by (rule ab)
    show "messages (step ?s (Settle 0 (Inr (Some (js ''late reply''))) :: unit Event)) =
     [\<lparr>mid = js ''1000'', role = js ''user'', content = js ''first''\<rparr>,
      \<lparr>mid = js ''2000'', role = js ''user'', content = js ''second''\<rparr>]"
      by (simp only: late ms)
    show "messages (step ?s (Settle 1 (Inl ()) :: unit Event)) =
     [\<lparr>mid = js ''1000'', role = js ''user'', content = js ''first''\<rparr>,
      \<lparr>mid = js ''2000'', role = js ''user'', content = js ''second''\<rparr>]"
      by (simp only: failed ms)
    show "messages (step ?s (Settle 1 (Inr (Some (js ''reply''))) :: unit Event)) =
     [\<lparr>mid = js ''1000'', role = js ''user'', content = js ''first''\<rparr>,
      \<lparr>mid = js ''2000'', role = js ''user'', content = js ''second''\<rparr>,
      \<lparr>mid = js ''2001'', role = js ''model'', content = js ''reply''\<rparr>]"
      by (rule ok)
    show "messages (step ?s (Clear :: unit Event)) =
     [\<lparr>mid = js ''welcome'', role = js ''model'',
       content = js ''Session cleared. Ready for a new track.''\<rparr>]"
      by (rule cleared)
    show "map controller (inflight (step ?s (Clear :: unit Event))) = [0, 1]" by (rule fl)
    show "signal_aborted (step ?s (Clear :: unit Event)) 1" by (rule ca)
  qed
qed

section \<open>The round trip through the reply text\<close>

subsection \<open>White space\<close>

lemma trim_dropWhile: "trim (dropWhile is_ws s) = trim s"
  by (simp add: trim_def)

lemma dropWhile_before_stop:
  "\<not> is_ws x \<Longrightarrow> dropWhile is_ws (s @ x # r) = dropWhile is_ws s @ x # r"
  by (induction s) simp_all

lemma trim_ws_append:
  "\<forall>c \<in> set w. is_ws c \<Longrightarrow> trim (w @ s) = trim s"
  by (simp add: trim_def dropWhile_append2)

lemma dropWhile_ws_id: "s \<noteq> [] \<Longrightarrow> \<not> is_ws (hd s) \<Longrightarrow> dropWhile is_ws s = s"
  by (cases s) simp_all

lemma trim_Nil_iff: "trim s = [] \<longleftrightarrow> (\<forall>c \<in> set s. is_ws c)"
proof
  assume "\<forall>c \<in> set s. is_ws c"
  then show "trim s = []" by (auto simp: trim_def dest: set_dropWhileD)
next
  assume "trim s = []"
  then have a: "\<forall>c \<in> set (dropWhile is_ws s). is_ws c"
    by (simp add: trim_def dropWhile_eq_Nil_conv)
  have "dropWhile is_ws s = []"
  proof (rule ccontr)
    assume n: "dropWhile is_ws s \<noteq> []"
    then have "\<not> is_ws (hd (dropWhile is_ws s))" by (rule hd_dropWhile)
    moreover from n have "hd (dropWhile is_ws s) \<in> set (dropWhile is_ws s)" by simp
    ultimately show False using a by blast
  qed
  then show "\<forall>c \<in> set s. is_ws c" by (simp add: dropWhile_eq_Nil_conv)
qed

lemma trim_append_ws:
  assumes "\<forall>c \<in> set w. is_ws c"
  shows "trim (s @ w) = trim s"
proof (cases "\<forall>c \<in> set s. is_ws c")
  case True
  with assms have "trim (s @ w) = []" "trim s = []"
    by (auto simp: trim_Nil_iff)
  then show ?thesis by simp
next
  case False
  then obtain c where c: "c \<in> set s" "\<not> is_ws c" by blast
  then have "dropWhile is_ws (s @ w) = dropWhile is_ws s @ w"
    by (rule dropWhile_append1)
  moreover have "dropWhile is_ws (rev w @ t) = dropWhile is_ws t" for t
    using assms by (intro dropWhile_append2) simp
  ultimately show ?thesis by (simp add: trim_def)
qed

lemma dropWhile_same_length:
  assumes "length (dropWhile P t) = length t"
  shows "dropWhile P t = t"
proof -
  have "length (takeWhile P t) + length (dropWhile P t) = length t"
    by (metis length_append takeWhile_dropWhile_id)
  with assms have "takeWhile P t = []" by simp
  then show ?thesis by (metis append_Nil takeWhile_dropWhile_id)
qed

lemma trim_idem_ends:
  assumes "trim t = t" "t \<noteq> []"
  shows "\<not> is_ws (hd t)" "\<not> is_ws (last t)"
proof -
  have l: "length (trim t) \<le> length (dropWhile is_ws t)"
    by (metis length_dropWhile_le length_rev trim_def)
  have "length (dropWhile is_ws t) \<le> length t" by (rule length_dropWhile_le)
  with l assms have "length (dropWhile is_ws t) = length t" by simp
  then have d: "dropWhile is_ws t = t" by (rule dropWhile_same_length)
  with assms(2) show "\<not> is_ws (hd t)" by (metis hd_dropWhile)
  from d assms(1) have "rev (dropWhile is_ws (rev t)) = t" by (simp add: trim_def)
  then have "length (dropWhile is_ws (rev t)) = length (rev t)"
    by (metis length_rev)
  then have "dropWhile is_ws (rev t) = rev t" by (rule dropWhile_same_length)
  with assms(2) have "\<not> is_ws (hd (rev t))" by (metis hd_dropWhile rev_is_Nil_conv)
  with assms(2) show "\<not> is_ws (last t)" by (simp add: hd_rev)
qed

lemma trim_id:
  assumes "t \<noteq> []" "\<not> is_ws (hd t)" "\<not> is_ws (last t)"
  shows "trim t = t"
proof -
  have "dropWhile is_ws t = t" using assms by (simp add: dropWhile_ws_id)
  moreover have "dropWhile is_ws (rev t) = rev t"
    using assms by (simp add: dropWhile_ws_id hd_rev)
  ultimately show ?thesis by (simp add: trim_def)
qed

subsection \<open>The matchers\<close>

lemma ws_star_dropWhile: "k (dropWhile is_ws s) = Some v \<Longrightarrow> ws_star k s = Some v"
  by (induction s) (auto split: if_splits)

lemma first_match_hit: "m s = Some v \<Longrightarrow> first_match m s = Some v"
  by (cases s) simp_all

lemma first_match_skip:
  "(\<And>t. suffix t z \<Longrightarrow> t \<noteq> [] \<Longrightarrow> m (t @ s) = None) \<Longrightarrow>
   first_match m (z @ s) = first_match m s"
proof (induction z)
  case Nil
  then show ?case by simp
next
  case (Cons c z)
  have "m ((c # z) @ s) = None" by (rule Cons.prems) simp_all
  moreover have "first_match m (z @ s) = first_match m s"
    by (rule Cons.IH) (simp add: Cons.prems suffix_Cons)
  ultimately show ?case by simp
qed

lemma lazy_until_skip:
  "(\<And>t. suffix t z \<Longrightarrow> t \<noteq> [] \<Longrightarrow> \<not> prefix h (t @ s)) \<Longrightarrow>
   lazy_until h (z @ s) = map_option ((@) z) (lazy_until h s)"
proof (induction z)
  case Nil
  then show ?case by (simp add: option.map_ident)
next
  case (Cons c z)
  have "\<not> prefix h ((c # z) @ s)" by (rule Cons.prems) simp_all
  moreover have "lazy_until h (z @ s) = map_option ((@) z) (lazy_until h s)"
    by (rule Cons.IH) (simp add: Cons.prems suffix_Cons)
  ultimately show ?case by (simp add: option.map_comp comp_def)
qed

lemma lazy_until_hit: "lazy_until h (h @ r) = Some []"
proof (cases "h @ r")
  case Nil
  then show ?thesis by simp
next
  case (Cons a l)
  have "prefix h (a # l)" by (metis Cons prefixI)
  then show ?thesis by (simp add: Cons)
qed

lemma prefix_in_field:
  "prefix h (t @ x # r) \<Longrightarrow> x \<notin> set h \<Longrightarrow> prefix h t"
  by (auto simp: prefix_append prefix_Cons)

lemma no_prefix_from_field:
  assumes "\<not> sublist h f" "x \<notin> set h" "suffix t f"
  shows "\<not> prefix h (t @ x # r)"
proof
  assume "prefix h (t @ x # r)"
  then have "prefix h t" using assms(2) by (rule prefix_in_field)
  with assms(3) have "sublist h f" by (auto simp: sublist_altdef')
  with assms(1) show False by simp
qed

lemma skip_field:
  assumes "\<not> sublist h f" "x \<notin> set h"
  shows "first_match (lit h k) (f @ x # r) = first_match (lit h k) r"
proof -
  have "first_match (lit h k) ((f @ [x]) @ r) = first_match (lit h k) r"
  proof (rule first_match_skip)
    fix t assume "suffix t (f @ [x])" "t \<noteq> []"
    then obtain t' where t: "t = t' @ [x]" "suffix t' f" by auto
    have "\<not> prefix h (t' @ x # r)"
      using assms t(2) by (rule no_prefix_from_field)
    then show "lit h k (t @ r) = None" by (simp add: lit_def t(1))
  qed
  then show ?thesis by simp
qed

lemma capture_field:
  assumes "\<not> sublist h f" "x \<notin> set h"
  shows "lazy_until h (f @ x # r) = map_option ((@) (f @ [x])) (lazy_until h r)"
proof -
  have "lazy_until h ((f @ [x]) @ r) = map_option ((@) (f @ [x])) (lazy_until h r)"
  proof (rule lazy_until_skip)
    fix t assume "suffix t (f @ [x])" "t \<noteq> []"
    then obtain t' where t: "t = t' @ [x]" "suffix t' f" by auto
    have "\<not> prefix h (t' @ x # r)"
      using assms t(2) by (rule no_prefix_from_field)
    then show "\<not> prefix h (t @ r)" by (simp add: t(1))
  qed
  then show ?thesis by simp
qed

lemma sublist_dropWhile:
  assumes "\<not> sublist h f"
  shows "\<not> sublist h (dropWhile P f)"
proof
  assume "sublist h (dropWhile P f)"
  then obtain a b where "dropWhile P f = a @ h @ b" by (auto simp: sublist_def)
  then have "f = (takeWhile P f @ a) @ h @ b"
    by (metis append_assoc takeWhile_dropWhile_id)
  then have "sublist h f" by (metis sublist_appendI)
  then show False using assms by simp
qed

text \<open>
  A section in the middle of the reply: the line feed after its header, the field, a blank
  line, the next header. The capture is the field without its leading white space,
  followed by the blank line unless the field is blank; trimmed, it is the trimmed field.
\<close>

lemma capture_section:
  assumes "\<not> sublist h f" "0xA \<notin> set h" "\<not> is_ws (hd h)"
  shows "\<exists>cap. ws_star (lazy_until h) (0xA # f @ 0xA # 0xA # h @ r) = Some cap \<and>
           trim cap = trim f"
proof -
  from assms(1) have hne: "h \<noteq> []" by auto
  then obtain a hs where h: "h = a # hs" by (cases h) auto
  with assms(3) have a: "\<not> is_ws a" by simp
  have nl: "is_ws 0xA" by (simp add: is_ws_def)
  let ?cap = "dropWhile is_ws (f @ [0xA, 0xA])"
  have d: "dropWhile is_ws (0xA # f @ 0xA # 0xA # h @ r) = ?cap @ h @ r"
    using dropWhile_before_stop[OF a, of "0xA # f @ [0xA, 0xA]" "hs @ r"] nl
    by (simp add: h)
  have c: "lazy_until h (?cap @ h @ r) = Some ?cap"
  proof (cases "\<forall>c \<in> set f. is_ws c")
    case True
    then have "?cap = []" using nl by (simp add: dropWhile_eq_Nil_conv)
    then show ?thesis by (simp add: lazy_until_hit)
  next
    case False
    then obtain c where "c \<in> set f" "\<not> is_ws c" by blast
    then have e: "?cap = dropWhile is_ws f @ [0xA, 0xA]"
      by (rule dropWhile_append1)
    have n: "\<not> sublist h (dropWhile is_ws f)"
      using assms(1) by (rule sublist_dropWhile)
    have "lazy_until h (dropWhile is_ws f @ 0xA # (0xA # h @ r)) =
        map_option ((@) (dropWhile is_ws f @ [0xA])) (lazy_until h (0xA # h @ r))"
      using n assms(2) by (rule capture_field)
    also have "lazy_until h (0xA # h @ r) = map_option ((@) [0xA]) (lazy_until h (h @ r))"
      using capture_field[of h "[]" "0xA" "h @ r"] assms(2) hne by simp
    finally show ?thesis by (simp add: e lazy_until_hit)
  qed
  have "ws_star (lazy_until h) (0xA # f @ 0xA # 0xA # h @ r) = Some ?cap"
    by (rule ws_star_dropWhile) (simp only: d c)
  moreover have "trim ?cap = trim f"
    using nl by (simp add: trim_dropWhile trim_append_ws)
  ultimately show ?thesis by blast
qed

lemma lit_hit: "lit h k (h @ r) = k r"
  by (simp add: lit_def)

lemma first_match_header:
  "k r = Some v \<Longrightarrow> first_match (lit h k) (h @ r) = Some v"
  by (rule first_match_hit) (simp add: lit_hit)

subsection \<open>The five fields of a reply text\<close>

lemma reply_text_sections:
  "reply_text sep song =
     js ''## Title: '' @ title song @ 0xA #
     (js ''\<newline>## Voice:\<newline>'' @ voice song @ 0xA #
     (js ''\<newline>## Tags:\<newline>'' @ join sep (tags song) @ 0xA #
     (js ''\<newline>## Style:\<newline>'' @ style song @ 0xA #
     (js ''\<newline>## Lyrics:\<newline>'' @ lyrics song))))"
  by (simp add: reply_text_def js_def)

lemma header_facts:
  "0xA \<notin> set (js ''## Voice:'')" "\<not> is_ws (hd (js ''## Voice:''))"
  "0xA \<notin> set (js ''## Tags:'')" "\<not> is_ws (hd (js ''## Tags:''))"
  "0xA \<notin> set (js ''## Style:'')" "\<not> is_ws (hd (js ''## Style:''))"
  "0xA \<notin> set (js ''## Lyrics:'')" "\<not> is_ws (hd (js ''## Lyrics:''))"
  by (simp_all add: js_def is_ws_def)

lemma skip_literals_Voice:
  "first_match (lit (js ''## Voice:'') k) (js ''## Title: '' @ X) =
     first_match (lit (js ''## Voice:'') k) X"
  "first_match (lit (js ''## Voice:'') k) (js ''\<newline>## Voice:\<newline>'' @ X) =
     first_match (lit (js ''## Voice:'') k) (js ''## Voice:'' @ 0xA # X)"
  by (simp_all add: js_def lit_def)

lemma skip_literals_Tags:
  "first_match (lit (js ''## Tags:'') k) (js ''## Title: '' @ X) =
     first_match (lit (js ''## Tags:'') k) X"
  "first_match (lit (js ''## Tags:'') k) (js ''\<newline>## Voice:\<newline>'' @ X) =
     first_match (lit (js ''## Tags:'') k) X"
  "first_match (lit (js ''## Tags:'') k) (js ''\<newline>## Tags:\<newline>'' @ X) =
     first_match (lit (js ''## Tags:'') k) (js ''## Tags:'' @ 0xA # X)"
  by (simp_all add: js_def lit_def)

lemma skip_literals_Style:
  "first_match (lit (js ''## Style:'') k) (js ''## Title: '' @ X) =
     first_match (lit (js ''## Style:'') k) X"
  "first_match (lit (js ''## Style:'') k) (js ''\<newline>## Voice:\<newline>'' @ X) =
     first_match (lit (js ''## Style:'') k) X"
  "first_match (lit (js ''## Style:'') k) (js ''\<newline>## Tags:\<newline>'' @ X) =
     first_match (lit (js ''## Style:'') k) X"
  "first_match (lit (js ''## Style:'') k) (js ''\<newline>## Style:\<newline>'' @ X) =
     first_match (lit (js ''## Style:'') k) (js ''## Style:'' @ 0xA # X)"
  by (simp_all add: js_def lit_def)

lemma skip_literals_Lyrics:
  "first_match (lit (js ''## Lyrics:'') k) (js ''## Title: '' @ X) =
     first_match (lit (js ''## Lyrics:'') k) X"
  "first_match (lit (js ''## Lyrics:'') k) (js ''\<newline>## Voice:\<newline>'' @ X) =
     first_match (lit (js ''## Lyrics:'') k) X"
  "first_match (lit (js ''## Lyrics:'') k) (js ''\<newline>## Tags:\<newline>'' @ X) =
     first_match (lit (js ''## Lyrics:'') k) X"
  "first_match (lit (js ''## Lyrics:'') k) (js ''\<newline>## Style:\<newline>'' @ X) =
     first_match (lit (js ''## Lyrics:'') k) X"
  "first_match (lit (js ''## Lyrics:'') k) (js ''\<newline>## Lyrics:\<newline>'' @ X) =
     first_match (lit (js ''## Lyrics:'') k) (js ''## Lyrics:'' @ 0xA # X)"
  by (simp_all add: js_def lit_def)

lemma next_header:
  "js ''\<newline>## Tags:\<newline>'' @ X = 0xA # js ''## Tags:'' @ 0xA # X"
  "js ''\<newline>## Style:\<newline>'' @ X = 0xA # js ''## Style:'' @ 0xA # X"
  "js ''\<newline>## Lyrics:\<newline>'' @ X = 0xA # js ''## Lyrics:'' @ 0xA # X"
  by (simp_all add: js_def)

lemma title_of_reply_text:
  assumes "\<forall>c \<in> set (title song). \<not> is_line_terminator c" "trim (title song) \<noteq> []"
  shows "title_of (reply_text sep song) = Some (trim (title song))"
proof -
  obtain R where T: "reply_text sep song = js ''## Title:'' @ 0x20 # title song @ 0xA # R"
    by (simp add: reply_text_def js_def)
  let ?F = "dropWhile is_ws (title song)"
  from assms(2) obtain c where "c \<in> set (title song)" "\<not> is_ws c"
    by (auto simp: trim_Nil_iff)
  then have d: "dropWhile is_ws (title song @ 0xA # R) = ?F @ 0xA # R"
    by (rule dropWhile_append1)
  have sp: "is_ws 0x20" by (simp add: is_ws_def)
  have F: "?F \<noteq> []"
    using assms(2) by (auto simp: trim_Nil_iff dropWhile_eq_Nil_conv)
  have "\<forall>c \<in> set ?F. \<not> is_line_terminator c"
    using assms(1) by (auto dest: set_dropWhileD)
  then have "takeWhile (\<lambda>c. \<not> is_line_terminator c) (?F @ 0xA # R) = ?F"
    by (simp add: takeWhile_append2 is_line_terminator_def)
  then have "dot_plus (?F @ 0xA # R) = Some ?F"
    using F by (simp add: dot_plus_def)
  then have "dot_plus (dropWhile is_ws (0x20 # title song @ 0xA # R)) = Some ?F"
    using sp d by simp
  then have "ws_star dot_plus (0x20 # title song @ 0xA # R) = Some ?F"
    by (rule ws_star_dropWhile)
  then have "re_title (reply_text sep song) = Some ?F"
    unfolding re_title_def T by (rule first_match_header)
  then show ?thesis by (simp add: title_of_def trim_dropWhile)
qed

lemma voice_of_reply_text:
  assumes "\<not> sublist (js ''## Voice:'') (title song)"
    "\<not> sublist (js ''## Tags:'') (voice song)"
  shows "voice_of (reply_text sep song) = trim (voice song)"
proof -
  let ?m = "lit (js ''## Voice:'') (ws_star (lazy_until (js ''## Tags:'')))"
  obtain R where T: "reply_text sep song =
      js ''## Title: '' @ title song @ 0xA #
      (js ''\<newline>## Voice:\<newline>'' @ voice song @ 0xA # 0xA # js ''## Tags:'' @ R)"
    by (simp add: reply_text_sections next_header)
  obtain cap where cap:
    "ws_star (lazy_until (js ''## Tags:''))
       (0xA # voice song @ 0xA # 0xA # js ''## Tags:'' @ R) = Some cap"
    "trim cap = trim (voice song)"
    using capture_section[OF assms(2) header_facts(3) header_facts(4)] by blast
  have "first_match ?m (reply_text sep song) =
      first_match ?m (js ''## Voice:'' @ 0xA # voice song @ 0xA # 0xA # js ''## Tags:'' @ R)"
    unfolding T
    by (simp only: skip_literals_Voice skip_field[OF assms(1) header_facts(1)])
  also have "\<dots> = Some cap"
    using cap(1) by (rule first_match_header)
  finally show ?thesis by (simp add: voice_of_def re_voice_def cap(2))
qed

lemma rawTags_of_reply_text:
  assumes "\<not> sublist (js ''## Tags:'') (title song)"
    "\<not> sublist (js ''## Tags:'') (voice song)"
    "\<not> sublist (js ''## Style:'') (join sep (tags song))"
  shows "rawTags_of (reply_text sep song) = Some (trim (join sep (tags song)))"
proof -
  let ?m = "lit (js ''## Tags:'') (ws_star (lazy_until (js ''## Style:'')))"
  obtain R where T: "reply_text sep song =
      js ''## Title: '' @ title song @ 0xA #
      (js ''\<newline>## Voice:\<newline>'' @ voice song @ 0xA #
      (js ''\<newline>## Tags:\<newline>'' @ join sep (tags song) @ 0xA # 0xA # js ''## Style:'' @ R))"
    by (simp add: reply_text_sections next_header)
  obtain cap where cap:
    "ws_star (lazy_until (js ''## Style:''))
       (0xA # join sep (tags song) @ 0xA # 0xA # js ''## Style:'' @ R) = Some cap"
    "trim cap = trim (join sep (tags song))"
    using capture_section[OF assms(3) header_facts(5) header_facts(6)] by blast
  have "first_match ?m (reply_text sep song) =
      first_match ?m
        (js ''## Tags:'' @ 0xA # join sep (tags song) @ 0xA # 0xA # js ''## Style:'' @ R)"
    unfolding T
    by (simp only: skip_literals_Tags skip_field[OF assms(1) header_facts(3)]
        skip_field[OF assms(2) header_facts(3)])
  also have "\<dots> = Some cap"
    using cap(1) by (rule first_match_header)
  finally show ?thesis by (simp add: rawTags_of_def re_tags_def cap(2))
qed

lemma style_of_reply_text:
  assumes "\<not> sublist (js ''## Style:'') (title song)"
    "\<not> sublist (js ''## Style:'') (voice song)"
    "\<not> sublist (js ''## Style:'') (join sep (tags song))"
    "\<not> sublist (js ''## Lyrics:'') (style song)"
  shows "style_of (reply_text sep song) = Some (trim (style song))"
proof -
  let ?m = "lit (js ''## Style:'') (ws_star (lazy_until (js ''## Lyrics:'')))"
  obtain R where T: "reply_text sep song =
      js ''## Title: '' @ title song @ 0xA #
      (js ''\<newline>## Voice:\<newline>'' @ voice song @ 0xA #
      (js ''\<newline>## Tags:\<newline>'' @ join sep (tags song) @ 0xA #
      (js ''\<newline>## Style:\<newline>'' @ style song @ 0xA # 0xA # js ''## Lyrics:'' @ R)))"
    by (simp add: reply_text_sections next_header)
  obtain cap where cap:
    "ws_star (lazy_until (js ''## Lyrics:''))
       (0xA # style song @ 0xA # 0xA # js ''## Lyrics:'' @ R) = Some cap"
    "trim cap = trim (style song)"
    using capture_section[OF assms(4) header_facts(7) header_facts(8)] by blast
  have "first_match ?m (reply_text sep song) =
      first_match ?m (js ''## Style:'' @ 0xA # style song @ 0xA # 0xA # js ''## Lyrics:'' @ R)"
    unfolding T
    by (simp only: skip_literals_Style skip_field[OF assms(1) header_facts(5)]
        skip_field[OF assms(2) header_facts(5)] skip_field[OF assms(3) header_facts(5)])
  also have "\<dots> = Some cap"
    using cap(1) by (rule first_match_header)
  finally show ?thesis by (simp add: style_of_def re_style_def cap(2))
qed

lemma lyrics_of_reply_text:
  assumes "\<not> sublist (js ''## Lyrics:'') (title song)"
    "\<not> sublist (js ''## Lyrics:'') (voice song)"
    "\<not> sublist (js ''## Lyrics:'') (join sep (tags song))"
    "\<not> sublist (js ''## Lyrics:'') (style song)"
  shows "lyrics_of (reply_text sep song) = Some (trim (lyrics song))"
proof -
  let ?m = "lit (js ''## Lyrics:'') (ws_star any_star)"
  have nl: "is_ws 0xA" by (simp add: is_ws_def)
  have "any_star (dropWhile is_ws (0xA # lyrics song)) = Some (dropWhile is_ws (lyrics song))"
    using nl by (simp add: any_star_def)
  then have k: "ws_star any_star (0xA # lyrics song) = Some (dropWhile is_ws (lyrics song))"
    by (rule ws_star_dropWhile)
  have "first_match ?m (reply_text sep song) =
      first_match ?m (js ''## Lyrics:'' @ 0xA # lyrics song)"
    unfolding reply_text_sections
    by (simp only: skip_literals_Lyrics skip_field[OF assms(1) header_facts(7)]
        skip_field[OF assms(2) header_facts(7)] skip_field[OF assms(3) header_facts(7)]
        skip_field[OF assms(4) header_facts(7)])
  also have "\<dots> = Some (dropWhile is_ws (lyrics song))"
    using k by (rule first_match_header)
  finally show ?thesis by (simp add: lyrics_of_def re_lyrics_def trim_dropWhile)
qed

subsection \<open>Joining and splitting tags\<close>

lemma split_on_plain: "\<forall>c \<in> set a. \<not> p c \<Longrightarrow> split_on p a = [a]"
  by (induction a) simp_all

lemma split_on_first:
  "\<forall>c \<in> set a. \<not> p c \<Longrightarrow> p d \<Longrightarrow> split_on p (a @ d # r) = a # split_on p r"
  by (induction a) simp_all

lemma ws_not_comma: "is_ws c \<Longrightarrow> c \<noteq> 0x2C"
  by (auto simp: is_ws_def)

lemma join_Cons: "ts \<noteq> [] \<Longrightarrow> join sep (t # ts) = t @ sep @ join sep ts"
  by (cases ts) simp_all

lemma tags_spec_join:
  assumes sep: "tag_separator sep"
  shows "ts \<noteq> [] \<Longrightarrow> \<forall>t \<in> set ts. plain_tag t \<Longrightarrow>
    \<forall>c \<in> set w. is_ws c \<and> c \<noteq> 0xA \<Longrightarrow> tags_spec (w @ join sep ts) = ts"
proof (induction ts arbitrary: w)
  case Nil
  then show ?case by simp
next
  case (Cons t ts)
  let ?p = "\<lambda>c. c = 0x2C \<or> c = (0xA :: jschar)"
  from Cons.prems have t: "plain_tag t" by simp
  from Cons.prems t have plain: "\<forall>c \<in> set (w @ t). \<not> ?p c"
    by (auto simp: plain_tag_def dest: ws_not_comma)
  have tr: "trim (w @ t) = t" "t \<noteq> []"
    using Cons.prems t by (simp_all add: trim_ws_append plain_tag_def)
  show ?case
  proof (cases "ts = []")
    case True
    have "split_on ?p (w @ t) = [w @ t]"
      using plain by (rule split_on_plain)
    then show ?thesis using tr True by (simp add: tags_spec_def)
  next
    case False
    from sep obtain d w' where s: "sep = d # w'" "?p d" "\<forall>c \<in> set w'. is_ws c \<and> c \<noteq> 0xA"
      by (auto simp: tag_separator_def list_all_iff split: list.splits)
    have "split_on ?p ((w @ t) @ d # (w' @ join sep ts)) =
        (w @ t) # split_on ?p (w' @ join sep ts)"
      using plain s(2) by (rule split_on_first)
    then have "tags_spec (w @ join sep (t # ts)) = t # tags_spec (w' @ join sep ts)"
      using tr False by (simp add: tags_spec_def join_Cons s(1))
    moreover have "tags_spec (w' @ join sep ts) = ts"
      using False Cons.prems(2) s(3) by (intro Cons.IH) simp_all
    ultimately show ?thesis by simp
  qed
qed

lemma tags_spec_join_all:
  assumes "tag_separator sep" "\<forall>t \<in> set ts. plain_tag t"
  shows "tags_spec (join sep ts) = ts"
proof (cases "ts = []")
  case True
  then show ?thesis by (simp add: tags_spec_def trim_def)
next
  case False
  then show ?thesis using tags_spec_join[OF assms(1) False assms(2), of "[]"] by simp
qed

lemma join_ends:
  assumes "ts \<noteq> []" "\<forall>t \<in> set ts. t \<noteq> []"
  shows "join sep ts \<noteq> []" "hd (join sep ts) = hd (hd ts)"
    "last (join sep ts) = last (last ts)"
  using assms
proof (induction ts)
  case Nil
  { case 1 then show ?case by simp }
  { case 2 then show ?case by simp }
  { case 3 then show ?case by simp }
next
  case (Cons t ts)
  { case 1 then show ?case by (cases ts) simp_all }
  { case 2 then show ?case by (cases ts) simp_all }
  { case 3
    show ?case
    proof (cases "ts = []")
      case True
      then show ?thesis by simp
    next
      case False
      with 3 Cons.IH(1)[OF False] Cons.IH(3)[OF False] show ?thesis
        by (simp add: join_Cons)
    qed }
qed

lemma trim_join:
  assumes "\<forall>t \<in> set ts. plain_tag t"
  shows "trim (join sep ts) = join sep ts"
proof (cases "ts = []")
  case True
  then show ?thesis by (simp add: trim_def)
next
  case False
  from assms have ne: "\<forall>t \<in> set ts. t \<noteq> []" by (simp add: plain_tag_def)
  from False assms have "plain_tag (hd ts)" "plain_tag (last ts)" by simp_all
  then have "\<not> is_ws (hd (hd ts))" "\<not> is_ws (last (last ts))"
    by (simp_all add: plain_tag_def trim_idem_ends)
  then show ?thesis
    using join_ends[OF False ne, of sep] by (intro trim_id) simp_all
qed

lemma sublist_across:
  assumes "\<not> sublist h a" "\<not> sublist h b" "d \<notin> set h"
  shows "\<not> sublist h (a @ d # b)"
proof
  assume "sublist h (a @ d # b)"
  then consider "sublist h a" | "sublist h (d # b)"
    | h1 h2 where "h = h1 @ h2" "suffix h1 a" "prefix h2 (d # b)"
    by (auto simp: sublist_append)
  then show False
  proof cases
    case 1
    with assms(1) show False by simp
  next
    case 2
    then have "prefix h (d # b)" using assms(2) by (simp add: sublist_Cons_right)
    with assms(3) have "h = []" by (auto simp: prefix_Cons)
    with assms(1) show False by simp
  next
    case 3
    from 3(3) assms(3) 3(1) have "h2 = []" by (auto simp: prefix_Cons)
    with 3(1) 3(2) have "sublist h a" by auto
    with assms(1) show False by simp
  qed
qed

lemma sublist_after_ws:
  assumes "\<forall>c \<in> set w. is_ws c" "\<not> is_ws (hd h)" "h \<noteq> []"
  shows "sublist h (w @ b) \<Longrightarrow> sublist h b"
  using assms(1)
proof (induction w)
  case Nil
  then show ?case by simp
next
  case (Cons c w)
  from Cons.prems(1) have "prefix h (c # w @ b) \<or> sublist h (w @ b)"
    by (simp add: sublist_Cons_right)
  moreover have "\<not> prefix h (c # w @ b)"
    using assms(2,3) Cons.prems(2) by (cases h) auto
  ultimately show ?case using Cons by simp
qed

lemma join_header_free:
  assumes "tag_separator sep" "0x2C \<notin> set h" "0xA \<notin> set h" "\<not> is_ws (hd h)" "h \<noteq> []"
  shows "\<forall>t \<in> set ts. \<not> sublist h t \<Longrightarrow> \<not> sublist h (join sep ts)"
proof (induction ts)
  case Nil
  with assms(5) show ?case by simp
next
  case (Cons t ts)
  show ?case
  proof (cases "ts = []")
    case True
    with Cons.prems show ?thesis by simp
  next
    case False
    from assms(1) obtain d w where s: "sep = d # w" "d = 0x2C \<or> d = 0xA"
        "\<forall>c \<in> set w. is_ws c"
      by (auto simp: tag_separator_def list_all_iff split: list.splits)
    have "\<not> sublist h (join sep ts)" using Cons by simp
    then have "\<not> sublist h (w @ join sep ts)"
      using sublist_after_ws[OF s(3) assms(4) assms(5)] by blast
    moreover have "\<not> sublist h t" using Cons.prems by simp
    moreover have "d \<notin> set h" using s(2) assms(2,3) by auto
    ultimately have "\<not> sublist h (t @ d # (w @ join sep ts))"
      by (intro sublist_across)
    then show ?thesis using False by (simp add: join_Cons s(1))
  qed
qed

text \<open>
  C4 as stated fails: a non-empty title, style and lyrics are not enough. A title of two
  lines comes back as its first line; a style that holds the Lyrics header comes back cut
  short, and the lyrics with it; a one-line title that holds the Lyrics header, which the
  parser itself can return, makes the lyrics start inside the title line.
\<close>

theorem round_trip_counterexample:
  "parseSongFromText (reply_text (js '', '')
      \<lparr>title = js ''Night\<newline>Drive'', voice = js ''Male'', style = js ''Deep house'',
       tags = [js ''#120 BPM''], lyrics = js ''la la''\<rparr>) =
     Some \<lparr>title = js ''Night'', voice = js ''Male'', style = js ''Deep house'',
       tags = [js ''#120 BPM''], lyrics = js ''la la''\<rparr> \<and>
   parseSongFromText (reply_text (js '', '')
      \<lparr>title = js ''Night Drive'', voice = js ''Male'', style = js ''Deep ## Lyrics: house'',
       tags = [js ''#120 BPM''], lyrics = js ''la la''\<rparr>) =
     Some \<lparr>title = js ''Night Drive'', voice = js ''Male'', style = js ''Deep'',
       tags = [js ''#120 BPM''], lyrics = js ''house\<newline>\<newline>## Lyrics:\<newline>la la''\<rparr> \<and>
   parseSongFromText (reply_text (js '', '')
      \<lparr>title = js ''Ode ## Lyrics: joy'', voice = js ''Male'', style = js ''Deep house'',
       tags = [js ''#120 BPM''], lyrics = js ''la la''\<rparr>) =
     Some \<lparr>title = js ''Ode ## Lyrics: joy'', voice = js ''Male'', style = js ''Deep house'',
       tags = [js ''#120 BPM''],
       lyrics = js ''joy\<newline>\<newline>## Voice:\<newline>Male\<newline>\<newline>## Tags:\<newline>#120 BPM\<newline>\<newline>## Style:\<newline>Deep house\<newline>\<newline>## Lyrics:\<newline>la la''\<rparr>"
  by code_simp

text \<open>
  C4, amended. Take a song whose title has no line terminator, whose title, style and
  lyrics are not blank, whose title, voice and style hold none of the headers
  \<^verbatim>\<open>## Voice:\<close>, \<^verbatim>\<open>## Tags:\<close>, \<^verbatim>\<open>## Style:\<close>, \<^verbatim>\<open>## Lyrics:\<close>, and whose tags are plain
  (trimmed, not empty, without comma, line feed or header), and join the tags by a comma
  or a line feed followed by any white space on the same line. Parsing its reply text gives
  the trimmed title, voice, style and lyrics, and the tags as they were.
\<close>

theorem round_trip:
  assumes "tag_separator sep"
    and "\<forall>c \<in> set (title song). \<not> is_line_terminator c"
    and "trim (title song) \<noteq> []" and "trim (style song) \<noteq> []"
    and "trim (lyrics song) \<noteq> []"
    and "header_free (title song)" and "header_free (voice song)"
    and "header_free (style song)"
    and "\<forall>t \<in> set (tags song). plain_tag t"
  shows "parseSongFromText (reply_text sep song) =
    Some \<lparr>title = trim (title song), voice = trim (voice song), style = trim (style song),
      tags = tags song, lyrics = trim (lyrics song)\<rparr>"
proof -
  have comma: "0x2C \<notin> set (js ''## Style:'')" "0x2C \<notin> set (js ''## Lyrics:'')"
    and ne: "js ''## Style:'' \<noteq> []" "js ''## Lyrics:'' \<noteq> []"
    by (simp_all add: js_def)
  have free: "\<forall>t \<in> set (tags song). \<not> sublist (js ''## Style:'') t"
    "\<forall>t \<in> set (tags song). \<not> sublist (js ''## Lyrics:'') t"
    using assms(9) by (simp_all add: plain_tag_def header_free_def)
  have bs: "\<not> sublist (js ''## Style:'') (join sep (tags song))"
    using assms(1) comma(1) header_facts(5) header_facts(6) ne(1) free(1)
    by (rule join_header_free)
  have bl: "\<not> sublist (js ''## Lyrics:'') (join sep (tags song))"
    using assms(1) comma(2) header_facts(7) header_facts(8) ne(2) free(2)
    by (rule join_header_free)
  have t: "title_of (reply_text sep song) = Some (trim (title song))"
    using assms(2,3) by (rule title_of_reply_text)
  have v: "voice_of (reply_text sep song) = trim (voice song)"
    using assms(6,7) by (intro voice_of_reply_text) (simp_all add: header_free_def)
  have r: "rawTags_of (reply_text sep song) = Some (join sep (tags song))"
    using assms(6,7) bs rawTags_of_reply_text[of song sep] trim_join[OF assms(9), of sep]
    by (simp add: header_free_def)
  have s: "style_of (reply_text sep song) = Some (trim (style song))"
    using assms(6,7,8) bs by (intro style_of_reply_text) (simp_all add: header_free_def)
  have l: "lyrics_of (reply_text sep song) = Some (trim (lyrics song))"
    using assms(6,7,8) bl by (intro lyrics_of_reply_text) (simp_all add: header_free_def)
  have g: "tags_of (Some (join sep (tags song))) = tags song"
    using assms(1,9) by (simp add: tags_of_Some tags_spec_join_all)
  show ?thesis
    using assms(3,4,5) by (simp add: parseSongFromText_def t v r s l g falsy_def)
qed

text \<open>
  C4, amended, at a song with white space around its title, style and lyrics and an empty
  voice, its three tags joined by comma and space, and by line feed.
\<close>

theorem round_trip_witness:
  "parseSongFromText (reply_text (js '', '')
      \<lparr>title = js '' Night Drive '', voice = js '''', style = js '' Deep house'',
       tags = [js ''#120 BPM'', js ''#A Minor'', js ''#House''], lyrics = js ''la la\<newline>''\<rparr>) =
     Some \<lparr>title = js ''Night Drive'', voice = js '''', style = js ''Deep house'',
       tags = [js ''#120 BPM'', js ''#A Minor'', js ''#House''], lyrics = js ''la la''\<rparr> \<and>
   parseSongFromText (reply_text (js ''\<newline>'')
      \<lparr>title = js '' Night Drive '', voice = js '''', style = js '' Deep house'',
       tags = [js ''#120 BPM'', js ''#A Minor'', js ''#House''], lyrics = js ''la la\<newline>''\<rparr>) =
     Some \<lparr>title = js ''Night Drive'', voice = js '''', style = js ''Deep house'',
       tags = [js ''#120 BPM'', js ''#A Minor'', js ''#House''], lyrics = js ''la la''\<rparr>"
proof -
  let ?song = "\<lparr>title = js '' Night Drive '', voice = js '''', style = js '' Deep house'',
       tags = [js ''#120 BPM'', js ''#A Minor'', js ''#House''], lyrics = js ''la la\<newline>''\<rparr>"
  have s1: "tag_separator (js '', '')" and s2: "tag_separator (js ''\<newline>'')"
    by code_simp+
  have h2: "\<forall>c \<in> set (title ?song). \<not> is_line_terminator c" by code_simp
  have h3: "trim (title ?song) \<noteq> []" by code_simp
  have h4: "trim (style ?song) \<noteq> []" by code_simp
  have h5: "trim (lyrics ?song) \<noteq> []" by code_simp
  have h6: "header_free (title ?song)" by code_simp
  have h7: "header_free (voice ?song)" by code_simp
  have h8: "header_free (style ?song)" by code_simp
  have h9: "\<forall>t \<in> set (tags ?song). plain_tag t" by code_simp
  have e: "\<lparr>title = trim (title ?song), voice = trim (voice ?song), style = trim (style ?song),
      tags = tags ?song, lyrics = trim (lyrics ?song)\<rparr> =
     \<lparr>title = js ''Night Drive'', voice = js '''', style = js ''Deep house'',
       tags = [js ''#120 BPM'', js ''#A Minor'', js ''#House''], lyrics = js ''la la''\<rparr>"
    by code_simp
  show ?thesis
    using round_trip[OF s1 h2 h3 h4 h5 h6 h7 h8 h9] round_trip[OF s2 h2 h3 h4 h5 h6 h7 h8 h9]
    unfolding e by (intro conjI)
qed

end
